theory Spec2Isabelle
  imports Main "HOL-Library.Word" "HOL-Library.Signed_Division"
begin

unbundle bit_operations_syntax

section \<open>The controller of the megamega2612 (megamega1/main.c)\<close>

text \<open>
  The program is a set of interrupt handlers over two global structs, \<open>ym\<close>
  (struct Parameters) and \<open>glb\<close> (struct GlobalVars).  Every handler runs with
  interrupts disabled (cli ... sei / SREG restore), so each one is a function from
  state to state.  The SPI transmission \<open>sendreg(flag, reg, data)\<close> is the only
  output; it is modelled as appending the triple to the log \<open>spi\<close>.  The LCD
  (\<open>printToLCD\<close>) neither reads nor writes anything the handlers depend on and is
  left out.  Of \<open>PCINT2_vect\<close> only the branch that edits a value is modelled
  (\<open>turn_value\<close>); the decoding of the encoder pins is not.

  C \<open>uint8_t\<close> is \<open>8 word\<close>.  C \<open>int\<close> (16 bit on the ATmega328p) is \<open>int\<close>:
  every int of the program stays far inside 16 bits in the states considered
  (parameters are at most 127, velocities at most 255, \<open>velSens * vel\<close> at most 2550).
\<close>

type_synonym u8 = "8 word"

text \<open>One SPI transaction of \<open>sendreg\<close>: channel-group flag, register, data.\<close>

type_synonym regwrite = "u8 \<times> u8 \<times> u8"

text \<open>
  One channel: row \<open>i\<close> of the parallel arrays \<open>notesOn[6][3]\<close>, \<open>freq[6][2]\<close>
  and \<open>vel[6]\<close>.  \<open>notesOn[i][1]\<close> (should be on) and \<open>notesOn[i][2]\<close> (is on)
  only ever receive 0 or 1 and are only tested for truth, so they are booleans.
  \<open>timeOn[6]\<close> is never read or written by the program.
\<close>

record channel =
  notesOn0 :: u8
  notesOn1 :: bool
  notesOn2 :: bool
  freq0 :: u8
  freq1 :: u8
  vel :: int

text \<open>
  The field that \<open>int* ym.value\<close> points to.  The per-operator fields carry the
  index of the array element pointed to.
\<close>

datatype field =
    PatchNum | VelSens | MinVel | Polyphony
  | Algorithm | Feedback | Multiple nat | Detune nat | TotalLvl nat
  | Attack nat | Decay nat | SusLvl nat | SusRate nat | Release nat | RateScl nat | Ssgeg nat
  | LfoFreq | Vibrato | Tremolo | AmOn nat

record state =
  op :: int
  group :: int
  current :: int
  value_sel :: field
  chans :: "channel list"
  sustain :: bool
  patchNum :: int
  velSens :: int
  minVel :: int
  polyphony :: int
  algorithm :: int
  feedback :: int
  detune :: "int list"
  multiple :: "int list"
  totalLvl :: "int list"
  attack :: "int list"
  decay :: "int list"
  susLvl :: "int list"
  susRate :: "int list"
  release :: "int list"
  rateScl :: "int list"
  ssgeg :: "int list"
  lfoFreq :: int
  vibrato :: int
  tremolo :: int
  amOn :: "int list"
  midiBuf :: "nat \<Rightarrow> int"
  midiIndex :: int
  msgStart :: u8
  spi :: "regwrite list"

definition chan :: "u8 list" where
  "chan = [0, 1, 2, 4, 5, 6]"

definition opOffset :: "u8 list" where
  "opOffset = [0, 0x08, 0x04, 0x0C]"

definition sendreg :: "u8 \<Rightarrow> u8 \<Rightarrow> u8 \<Rightarrow> state \<Rightarrow> state" where
  "sendreg flag reg data s = s\<lparr>spi := spi s @ [(flag, reg, data)]\<rparr>"

text \<open>\<open>minMaxValue(&var, min, max)\<close>: the new value of \<open>var\<close>.\<close>

definition minMaxValue :: "int \<Rightarrow> int \<Rightarrow> int \<Rightarrow> int" where
  "minMaxValue varVal mn mx = (if varVal < mn then mx else if varVal > mx then mn else varVal)"

definition max_c :: "int \<Rightarrow> int \<Rightarrow> int" where
  "max_c val1 val2 = (if val1 > val2 then val1 else val2)"

subsection \<open>note(): scheduling notes\<close>

text \<open>The local \<open>oct\<close> of \<open>note\<close> after \<open>minMaxValue(&oct, 0, 7)\<close>.\<close>

definition note_oct :: "u8 \<Rightarrow> int" where
  "note_oct noteIn = minMaxValue (uint noteIn div 12 - 1) 0 7"

text \<open>The local table \<open>uint16_t notes[]\<close>.\<close>

definition notes_tbl :: "int list" where
  "notes_tbl = [311, 329, 349, 370, 392, 415, 440, 466, 493, 523, 554, 586]"

text \<open>The local \<open>noteOut = notes[noteIn % 12]\<close>.\<close>

definition note_noteOut :: "u8 \<Rightarrow> int" where
  "note_noteOut noteIn = notes_tbl ! (unat noteIn mod 12)"

text \<open>\<open>uint8_t chanGrp = (i > 2)\<close>.\<close>

definition chanGrp :: "nat \<Rightarrow> u8" where
  "chanGrp i = (if i > 2 then 1 else 0)"

text \<open>The first branch of the note-on loop: channel \<open>i\<close> takes the note.\<close>

definition note_assign :: "u8 \<Rightarrow> u8 \<Rightarrow> nat \<Rightarrow> state \<Rightarrow> state" where
  "note_assign noteIn velocity i s =
     s\<lparr>chans := (chans s)[i := (chans s ! i)
        \<lparr>notesOn0 := noteIn,
         notesOn1 := True,
         freq0 := word_of_int (push_bit 3 (note_oct noteIn) OR drop_bit 8 (note_noteOut noteIn AND 0x0700)),
         freq1 := word_of_int (note_noteOut noteIn AND 0x00FF),
         vel := max_c (uint velocity) (minVel s)\<rparr>]\<rparr>"

text \<open>The second branch: channel \<open>i\<close> is switched off and on again at once.\<close>

definition note_retrigger :: "nat \<Rightarrow> state \<Rightarrow> state" where
  "note_retrigger i s =
     sendreg 0 0x28 (0xF0 + chan ! i)
       (sendreg (chanGrp i) (0xA0 + of_nat (i mod 3)) (freq1 (chans s ! i))
         (sendreg (chanGrp i) (0xA4 + of_nat (i mod 3)) (freq0 (chans s ! i))
           (sendreg 0 0x28 (0x00 + chan ! i) s)))"

text \<open>
  The loop \<open>for (i = 0; i < 6; i++)\<close> of the note-on case, over the indices still to
  visit; both branches end in \<open>break\<close>.
\<close>

fun note_on_loop :: "u8 \<Rightarrow> u8 \<Rightarrow> nat list \<Rightarrow> state \<Rightarrow> state" where
  "note_on_loop noteIn velocity [] s = s"
| "note_on_loop noteIn velocity (i # rest) s =
     (if \<not> notesOn1 (chans s ! i) \<and> \<not> notesOn2 (chans s ! i)
      then note_assign noteIn velocity i s
      else if notesOn1 (chans s ! i) \<and> notesOn2 (chans s ! i) \<and> notesOn0 (chans s ! i) = noteIn
      then note_retrigger i s
      else note_on_loop noteIn velocity rest s)"

text \<open>The loop of the note-off case.\<close>

fun note_off_loop :: "u8 \<Rightarrow> nat list \<Rightarrow> state \<Rightarrow> state" where
  "note_off_loop noteIn [] s = s"
| "note_off_loop noteIn (i # rest) s =
     (if notesOn1 (chans s ! i) \<and> notesOn2 (chans s ! i) \<and> notesOn0 (chans s ! i) = noteIn
      then s\<lparr>chans := (chans s)[i := (chans s ! i)\<lparr>notesOn1 := False\<rparr>]\<rparr>
      else note_off_loop noteIn rest s)"

text \<open>\<open>void note(uint8_t noteIn, uint8_t velocity, bool on)\<close>.\<close>

definition note_fn :: "u8 \<Rightarrow> u8 \<Rightarrow> bool \<Rightarrow> state \<Rightarrow> state" where
  "note_fn noteIn velocity on s =
     (if on then note_on_loop noteIn velocity [0..<6] s
      else note_off_loop noteIn [0..<6] s)"

subsection \<open>TIMER1_OVF_vect: the tick\<close>

text \<open>
  \<open>opLvl = (velSens * vel[i] + (10 - velSens) * totalLvl[o]) / 10\<close>; C division
  truncates towards zero, which is \<open>sdiv\<close>.
\<close>

definition opLvl :: "state \<Rightarrow> nat \<Rightarrow> nat \<Rightarrow> int" where
  "opLvl s i o' = (velSens s * vel (chans s ! i) + (10 - velSens s) * (totalLvl s ! o')) sdiv 10"

text \<open>The inner loop \<open>for (o = 0; o < 4; o++)\<close>.\<close>

fun tick_levels :: "nat \<Rightarrow> nat list \<Rightarrow> state \<Rightarrow> state" where
  "tick_levels i [] s = s"
| "tick_levels i (o' # rest) s =
     tick_levels i rest
       (sendreg (chanGrp i) (0x40 + of_nat (i mod 3) + opOffset ! o') (word_of_int (127 - opLvl s i o')) s)"

text \<open>The body of the loop over the channels.\<close>

definition tick_chan :: "nat \<Rightarrow> state \<Rightarrow> state" where
  "tick_chan i s =
     (if notesOn1 (chans s ! i) \<and> \<not> notesOn2 (chans s ! i) then
        (let s1 = tick_levels i [0..<4] s;
             s2 = sendreg (chanGrp i) (0xA4 + of_nat (i mod 3)) (freq0 (chans s1 ! i)) s1;
             s3 = sendreg (chanGrp i) (0xA0 + of_nat (i mod 3)) (freq1 (chans s2 ! i)) s2;
             s4 = sendreg 0 0x28 (0xF0 + chan ! i) s3
         in s4\<lparr>chans := (chans s4)[i := (chans s4 ! i)\<lparr>notesOn2 := True\<rparr>]\<rparr>)
      else if \<not> notesOn1 (chans s ! i) \<and> notesOn2 (chans s ! i) then
        (if \<not> sustain s then
           (let s1 = sendreg 0 0x28 (0x00 + chan ! i) s
            in s1\<lparr>chans := (chans s1)[i := (chans s1 ! i)
                 \<lparr>notesOn0 := 0, notesOn1 := False, notesOn2 := False\<rparr>]\<rparr>)
         else s)
      else s)"

fun tick_loop :: "nat list \<Rightarrow> state \<Rightarrow> state" where
  "tick_loop [] s = s"
| "tick_loop (i # rest) s = tick_loop rest (tick_chan i s)"

definition TIMER1_OVF_vect :: "state \<Rightarrow> state" where
  "TIMER1_OVF_vect s = tick_loop [0..<6] s"


subsection \<open>writeToYM: parameter registers\<close>

text \<open>
  The \<open>switch (options)\<close> that computes \<open>dataToWrite\<close>.  The operands are
  \<open>uint8_t\<close>, the expression is evaluated in \<open>int\<close> and the result is truncated
  to \<open>uint8_t\<close> by the assignment.
\<close>

definition dataToWrite :: "u8 \<Rightarrow> u8 \<Rightarrow> u8 \<Rightarrow> u8 \<Rightarrow> u8 \<Rightarrow> u8 \<Rightarrow> u8 \<Rightarrow> u8" where
  "dataToWrite options val1 val2 bitShift1 bitShift2 subValue1 subValue2 =
     (if options = 0 then
        word_of_int (push_bit (unat bitShift1) (uint val1) + push_bit (unat bitShift2) (uint val2))
      else if options = 1 then
        word_of_int (push_bit (unat bitShift1) (uint subValue1 - uint val1) + push_bit (unat bitShift2) (uint val2))
      else if options = 2 then
        word_of_int (push_bit (unat bitShift1) (uint val1) + push_bit (unat bitShift2) (uint subValue2 - uint val2))
      else if options = 3 then
        word_of_int (push_bit (unat bitShift1) (uint subValue1 - uint val1)
                     + push_bit (unat bitShift2) (uint subValue2 - uint val2))
      else if options = 4 then val1
      else if options = 5 then
        word_of_int (push_bit (unat bitShift1) (uint val1 + 3) + push_bit (unat bitShift2) (uint val2))
      else if options = 6 then
        word_of_int (push_bit (unat bitShift1) (uint val1) + push_bit (unat bitShift2) (uint val2 + 3))
      else if options = 7 then word_of_int (uint subValue1 - uint val1)
      else if options = 8 then
        word_of_int (0xC0 + push_bit (unat bitShift1) (uint val1) + push_bit (unat bitShift2) (uint val2))
      else if options = 9 then word_of_int (uint subValue1 - uint val1)
      else val1)"

text \<open>The nested loops \<open>for (j = 0; j < 2; j++) for (i = 0; i < 3; i++)\<close>.\<close>

fun writeToYM_i :: "u8 \<Rightarrow> u8 \<Rightarrow> u8 \<Rightarrow> nat list \<Rightarrow> state \<Rightarrow> state" where
  "writeToYM_i j regToWrite d [] s = s"
| "writeToYM_i j regToWrite d (i # rest) s =
     writeToYM_i j regToWrite d rest (sendreg j (regToWrite + of_nat i) d s)"

fun writeToYM_j :: "u8 \<Rightarrow> u8 \<Rightarrow> nat list \<Rightarrow> state \<Rightarrow> state" where
  "writeToYM_j regToWrite d [] s = s"
| "writeToYM_j regToWrite d (j # rest) s =
     writeToYM_j regToWrite d rest (writeToYM_i (of_nat j) regToWrite d [0..<3] s)"

definition writeToYM ::
  "u8 \<Rightarrow> u8 \<Rightarrow> u8 \<Rightarrow> u8 \<Rightarrow> u8 \<Rightarrow> u8 \<Rightarrow> bool \<Rightarrow> bool \<Rightarrow> u8 \<Rightarrow> u8 \<Rightarrow> u8 \<Rightarrow> state \<Rightarrow> state" where
  "writeToYM op' val1 val2 baseReg bitShift1 bitShift2 multiOp multiChannel options subValue1 subValue2 s =
     (let regToWrite = (if multiOp then baseReg + opOffset ! unat op' else baseReg) in
      if multiChannel then
        writeToYM_j regToWrite
          (dataToWrite options val1 val2 bitShift1 bitShift2 subValue1 subValue2) [0..<2] s
      else sendreg 0 baseReg (word_of_int (uint val1 + push_bit (unat bitShift2) (uint val2))) s)"

subsection \<open>changeAllParams and preset\<close>

text \<open>
  The body of the loop over the operators: the assignments to the arrays of \<open>ym\<close>
  (there is none to \<open>ym.release\<close>), then the register writes.  The sixteen
  four-element groups of arguments are passed as the local arrays the function builds
  from them.
\<close>

definition changeAllParams_op ::
  "int list \<Rightarrow> int list \<Rightarrow> int list \<Rightarrow> int list \<Rightarrow> int list \<Rightarrow> int list \<Rightarrow> int list \<Rightarrow>
   int list \<Rightarrow> int list \<Rightarrow> int list \<Rightarrow> int list \<Rightarrow> nat \<Rightarrow> state \<Rightarrow> state" where
  "changeAllParams_op mult det tl' atk dcy sl sr rel rs eg am i s =
     (let s1 = s\<lparr>multiple := (multiple s)[i := mult ! i],
                 detune := (detune s)[i := det ! i],
                 totalLvl := (totalLvl s)[i := tl' ! i],
                 attack := (attack s)[i := atk ! i],
                 decay := (decay s)[i := dcy ! i],
                 susLvl := (susLvl s)[i := sl ! i],
                 susRate := (susRate s)[i := sr ! i],
                 rateScl := (rateScl s)[i := rs ! i],
                 ssgeg := (ssgeg s)[i := eg ! i],
                 amOn := (amOn s)[i := am ! i]\<rparr>;
          s2 = writeToYM (of_nat i) (word_of_int (mult ! i)) (word_of_int (det ! i)) 0x30 0 4 True True 6 0 0 s1;
          s3 = writeToYM (of_nat i) (word_of_int (tl' ! i)) 0 0x40 0 0 True True 9 127 0 s2;
          s4 = writeToYM (of_nat i) (word_of_int (atk ! i)) (word_of_int (rs ! i)) 0x50 0 6 True True 1 31 0 s3;
          s5 = writeToYM (of_nat i) (word_of_int (dcy ! i)) (word_of_int (am ! i)) 0x60 0 7 True True 1 31 0 s4;
          s6 = writeToYM (of_nat i) (word_of_int (sl ! i)) (word_of_int (rel ! i)) 0x80 4 0 True True 3 15 15 s5;
          s7 = writeToYM (of_nat i) (word_of_int (sr ! i)) 0 0x70 0 0 True True 7 31 0 s6
      in if eg ! i = 0 then writeToYM (of_nat i) 0 0 0x90 0 3 True True 4 0 0 s7
         else writeToYM (of_nat i) (word_of_int (eg ! i - 1)) 1 0x90 0 3 True True 0 0 0 s7)"

fun changeAllParams_loop ::
  "int list \<Rightarrow> int list \<Rightarrow> int list \<Rightarrow> int list \<Rightarrow> int list \<Rightarrow> int list \<Rightarrow> int list \<Rightarrow>
   int list \<Rightarrow> int list \<Rightarrow> int list \<Rightarrow> int list \<Rightarrow> nat list \<Rightarrow> state \<Rightarrow> state" where
  "changeAllParams_loop mult det tl' atk dcy sl sr rel rs eg am [] s = s"
| "changeAllParams_loop mult det tl' atk dcy sl sr rel rs eg am (i # rest) s =
     changeAllParams_loop mult det tl' atk dcy sl sr rel rs eg am rest
       (changeAllParams_op mult det tl' atk dcy sl sr rel rs eg am i s)"

definition changeAllParams ::
  "int \<Rightarrow> int \<Rightarrow> int \<Rightarrow> int \<Rightarrow> int \<Rightarrow>
   int list \<Rightarrow> int list \<Rightarrow> int list \<Rightarrow> int list \<Rightarrow> int list \<Rightarrow> int list \<Rightarrow> int list \<Rightarrow>
   int list \<Rightarrow> int list \<Rightarrow> int list \<Rightarrow> int list \<Rightarrow> state \<Rightarrow> state" where
  "changeAllParams alg fb lfo vib trem mult det tl' atk dcy sl sr rel rs eg am s =
     (let s1 = s\<lparr>algorithm := alg, feedback := fb, lfoFreq := lfo, vibrato := vib, tremolo := trem\<rparr>;
          s2 = writeToYM 0 (word_of_int alg) (word_of_int fb) 0xB0 0 3 False True 0 0 0 s1;
          s3 = (if lfo = 0 then writeToYM 0 0 0 0x22 0 3 False False 0 0 0 s2
                else writeToYM 0 (word_of_int (lfo - 1)) 1 0x22 0 3 False False 0 0 0 s2);
          s4 = writeToYM 0 (word_of_int vib) (word_of_int trem) 0xB4 0 4 False True 8 0 0 s3
      in changeAllParams_loop mult det tl' atk dcy sl sr rel rs eg am [0..<4] s4)"

text \<open>\<open>preset()\<close>: the \<open>switch (ym.patchNum)\<close> over the 21 patches; it has no default.\<close>

definition preset :: "state \<Rightarrow> state" where
  "preset s =
     (if patchNum s = 0 then \<comment> \<open>ding dong piano\<close>
        changeAllParams 7 0 0 0 0
          [10, 8, 4, 2] [-3, 1, 3, 0] [63, 117, 117, 127] [0, 0, 0, 0] [23, 23, 23, 23] [0, 0, 0, 0]
          [29, 29, 29, 29] [1, 1, 1, 1] [1, 2, 1, 2] [0, 0, 0, 0] [0, 0, 0, 0] s
      else if patchNum s = 1 then \<comment> \<open>toxic sludge\<close>
        changeAllParams 3 4 2 4 0
          [1, 10, 2, 6] [0, 0, 0, 0] [127, 127, 127, 127] [0, 2, 12, 7] [4, 0, 23, 31] [14, 5, 0, 13]
          [29, 16, 0, 29] [7, 5, 8, 7] [1, 1, 1, 1] [0, 0, 0, 0] [0, 0, 0, 0] s
      else if patchNum s = 2 then \<comment> \<open>wooden steel\<close>
        changeAllParams 4 0 0 0 0
          [10, 8, 4, 2] [-3, 1, 3, 0] [27, 112, 112, 127] [0, 0, 9, 0] [16, 16, 16, 21] [0, 0, 0, 0]
          [29, 29, 29, 29] [7, 7, 7, 10] [1, 2, 1, 2] [0, 0, 0, 0] [0, 0, 0, 0] s
      else if patchNum s = 3 then \<comment> \<open>steel drum pad\<close>
        changeAllParams 5 3 3 0 3
          [10, 8, 6, 2] [-3, 1, 3, 0] [100, 117, 117, 127] [10, 26, 25, 0] [15, 23, 16, 21] [13, 7, 12, 0]
          [29, 29, 29, 29] [9, 1, 19, 11] [1, 2, 1, 2] [0, 0, 0, 0] [0, 0, 1, 0] s
      else if patchNum s = 4 then \<comment> \<open>(un)naturhythm\<close>
        changeAllParams 0 6 1 6 2
          [10, 8, 1, 2] [-3, 1, 3, 0] [88, 112, 112, 127] [14, 17, 14, 8] [18, 19, 19, 22] [0, 0, 0, 15]
          [29, 29, 29, 29] [6, 6, 6, 8] [2, 1, 2, 1] [3, 1, 3, 0] [1, 1, 1, 0] s
      else if patchNum s = 5 then \<comment> \<open>reedy ripper\<close>
        changeAllParams 2 5 0 0 0
          [1, 2, 7, 2] [3, -3, 3, 0] [126, 97, 106, 127] [16, 19, 27, 10] [27, 22, 26, 21] [13, 10, 12, 12]
          [31, 31, 31, 27] [8, 8, 8, 8] [1, 1, 1, 1] [0, 0, 0, 0] [0, 0, 0, 0] s
      else if patchNum s = 6 then \<comment> \<open>lately who?\<close>
        changeAllParams 7 4 0 0 0
          [4, 2, 1, 2] [-2, 2, 1, -1] [124, 117, 120, 127] [0, 0, 0, 0] [16, 23, 31, 12] [0, 0, 0, 0]
          [29, 29, 0, 18] [1, 1, 1, 1] [1, 1, 1, 1] [0, 0, 0, 0] [0, 0, 0, 0] s
      else if patchNum s = 7 then \<comment> \<open>tuned bounce\<close>
        changeAllParams 3 0 0 0 0
          [4, 6, 3, 4] [-3, 2, 3, -1] [111, 79, 118, 127] [11, 14, 2, 1] [15, 20, 10, 17] [0, 0, 0, 0]
          [29, 29, 29, 29] [9, 1, 10, 9] [2, 2, 1, 2] [0, 0, 0, 0] [0, 0, 0, 0] s
      else if patchNum s = 8 then \<comment> \<open>morph metal\<close>
        changeAllParams 3 4 0 0 0
          [4, 6, 7, 4] [-1, 2, 3, -1] [111, 117, 118, 127] [10, 22, 27, 1] [15, 20, 17, 21] [0, 0, 0, 0]
          [29, 29, 31, 29] [9, 1, 10, 9] [2, 2, 1, 2] [0, 0, 0, 0] [0, 0, 0, 0] s
      else if patchNum s = 9 then \<comment> \<open>get(s) nasty\<close>
        changeAllParams 3 5 0 0 0
          [2, 3, 2, 1] [-2, -2, 1, 0] [116, 118, 119, 127] [25, 23, 0, 0] [25, 27, 19, 24] [9, 10, 11, 13]
          [31, 31, 31, 31] [4, 4, 4, 4] [1, 1, 1, 1] [0, 0, 0, 0] [0, 0, 0, 0] s
      else if patchNum s = 10 then \<comment> \<open>flarp wobble\<close>
        changeAllParams 5 5 2 5 2
          [2, 2, 2, 2] [-1, 1, 3, 0] [108, 117, 124, 127] [8, 6, 12, 7] [25, 16, 27, 26] [4, 0, 0, 0]
          [29, 29, 29, 29] [4, 1, 3, 2] [1, 2, 1, 2] [0, 0, 0, 0] [0, 0, 1, 0] s
      else if patchNum s = 11 then \<comment> \<open>pan flute\<close>
        changeAllParams 4 6 3 2 3
          [4, 5, 4, 4] [-3, 3, -2, 0] [117, 114, 117, 127] [3, 22, 29, 18] [16, 28, 23, 20] [0, 0, 0, 0]
          [29, 29, 29, 29] [7, 7, 8, 7] [1, 1, 1, 1] [0, 0, 0, 0] [0, 1, 0, 0] s
      else if patchNum s = 12 then \<comment> \<open>deceptive bass\<close>
        changeAllParams 5 2 5 0 1
          [2, 2, 10, 6] [0, 0, 0, 0] [127, 104, 118, 127] [27, 16, 0, 0] [25, 19, 19, 21] [5, 0, 12, 0]
          [31, 31, 31, 31] [9, 8, 8, 8] [2, 2, 1, 1] [0, 1, 0, 0] [0, 0, 1, 0] s
      else if patchNum s = 13 then \<comment> \<open>jagged EP\<close>
        changeAllParams 6 5 2 0 2
          [7, 3, 14, 3] [-3, -1, 3, 1] [113, 120, 125, 118] [0, 0, 25, 0] [22, 23, 22, 23] [11, 11, 11, 11]
          [31, 31, 31, 31] [10, 8, 8, 8] [1, 1, 1, 1] [0, 0, 0, 0] [0, 0, 1, 0] s
      else if patchNum s = 14 then \<comment> \<open>all consuming\<close>
        changeAllParams 5 5 3 0 2
          [1, 1, 4, 2] [0, 0, 0, 0] [120, 120, 120, 127] [27, 28, 20, 24] [30, 26, 8, 28] [0, 3, 0, 10]
          [7, 31, 31, 31] [9, 7, 7, 7] [1, 1, 1, 1] [0, 0, 1, 0] [0, 1, 0, 0] s
      else if patchNum s = 15 then \<comment> \<open>one operator\<close>
        changeAllParams 7 0 0 0 0
          [2, 2, 2, 2] [0, 0, 0, 0] [0, 0, 0, 127] [0, 0, 0, 0] [31, 31, 31, 31] [15, 15, 15, 15]
          [31, 31, 31, 31] [0, 0, 0, 0] [0, 0, 0, 0] [0, 0, 0, 0] [0, 0, 0, 0] s
      else if patchNum s = 16 then \<comment> \<open>squelchy\<close>
        changeAllParams 1 0 0 0 0
          [10, 8, 4, 2] [-3, 1, 3, 0] [27, 112, 112, 127] [18, 10, 20, 0] [16, 0, 29, 25] [0, 0, 0, 0]
          [29, 29, 29, 29] [7, 7, 7, 10] [1, 2, 1, 2] [0, 0, 0, 0] [0, 0, 0, 0] s
      else if patchNum s = 17 then \<comment> \<open>ugly bell\<close>
        changeAllParams 6 4 0 0 0
          [10, 1, 1, 1] [0, 0, 0, 0] [120, 120, 120, 127] [0, 0, 0, 0] [24, 19, 25, 13] [0, 0, 0, 0]
          [31, 31, 31, 31] [8, 8, 6, 9] [1, 1, 1, 1] [0, 0, 0, 0] [0, 0, 0, 0] s
      else if patchNum s = 18 then \<comment> \<open>moving electric\<close>
        changeAllParams 2 4 1 0 1
          [2, 6, 8, 4] [-3, 0, 3, 0] [120, 111, 105, 125] [14, 23, 0, 14] [24, 23, 22, 31] [0, 0, 8, 12]
          [24, 23, 27, 31] [9, 8, 8, 9] [1, 2, 2, 0] [0, 0, 7, 0] [0, 1, 1, 0] s
      else if patchNum s = 19 then \<comment> \<open>wurly slow dance\<close>
        changeAllParams 5 5 1 0 2
          [4, 2, 10, 2] [2, -1, 1, 0] [113, 114, 109, 127] [0, 23, 21, 0] [23, 24, 26, 27] [0, 0, 0, 0]
          [31, 31, 31, 31] [7, 7, 9, 9] [0, 2, 1, 0] [0, 0, 3, 0] [0, 1, 0, 0] s
      else if patchNum s = 20 then \<comment> \<open>ambient banjo\<close>
        changeAllParams 4 4 0 0 0
          [4, 3, 7, 2] [0, -1, 1, 0] [105, 116, 102, 127] [18, 0, 14, 0] [20, 21, 17, 19] [7, 0, 0, 0]
          [24, 23, 23, 21] [9, 9, 9, 9] [0, 0, 0, 0] [8, 0, 0, 0] [0, 0, 0, 0] s
      else s)"

subsection \<open>changeGroup, changeCurrent, changeValue: the interface\<close>

definition changeGroup :: "state \<Rightarrow> state" where
  "changeGroup s =
     (let s1 = s\<lparr>group := minMaxValue (group s) 0 3, current := 0\<rparr> in
      if group s1 = 0 then s1\<lparr>value_sel := PatchNum\<rparr>
      else if group s1 = 1 then s1\<lparr>value_sel := Algorithm\<rparr>
      else if group s1 = 2 then s1\<lparr>value_sel := Attack (nat (op s1))\<rparr>
      else if group s1 = 3 then s1\<lparr>value_sel := LfoFreq\<rparr>
      else s1)"

definition changeCurrent :: "state \<Rightarrow> state" where
  "changeCurrent s =
     (let s1 = s\<lparr>op := minMaxValue (op s) 0 3\<rparr>; op' = nat (op s1) in
      if group s1 = 0 then
        (let s2 = s1\<lparr>current := minMaxValue (current s1) 0 3\<rparr> in
         if current s2 = 0 then s2\<lparr>value_sel := PatchNum\<rparr>
         else if current s2 = 1 then s2\<lparr>value_sel := VelSens\<rparr>
         else if current s2 = 2 then s2\<lparr>value_sel := MinVel\<rparr>
         else s2\<lparr>value_sel := Polyphony\<rparr>)
      else if group s1 = 1 then
        (let s2 = s1\<lparr>current := minMaxValue (current s1) 0 4\<rparr> in
         if current s2 = 0 then s2\<lparr>value_sel := Algorithm\<rparr>
         else if current s2 = 1 then s2\<lparr>value_sel := Feedback\<rparr>
         else if current s2 = 2 then s2\<lparr>value_sel := Multiple op'\<rparr>
         else if current s2 = 3 then s2\<lparr>value_sel := Detune op'\<rparr>
         else s2\<lparr>value_sel := TotalLvl op'\<rparr>)
      else if group s1 = 2 then
        (let s2 = s1\<lparr>current := minMaxValue (current s1) 0 6\<rparr> in
         if current s2 = 0 then s2\<lparr>value_sel := Attack op'\<rparr>
         else if current s2 = 1 then s2\<lparr>value_sel := Decay op'\<rparr>
         else if current s2 = 2 then s2\<lparr>value_sel := SusLvl op'\<rparr>
         else if current s2 = 3 then s2\<lparr>value_sel := SusRate op'\<rparr>
         else if current s2 = 4 then s2\<lparr>value_sel := Release op'\<rparr>
         else if current s2 = 5 then s2\<lparr>value_sel := RateScl op'\<rparr>
         else s2\<lparr>value_sel := Ssgeg op'\<rparr>)
      else if group s1 = 3 then
        (let s2 = s1\<lparr>current := minMaxValue (current s1) 0 3\<rparr> in
         if current s2 = 0 then s2\<lparr>value_sel := LfoFreq\<rparr>
         else if current s2 = 1 then s2\<lparr>value_sel := Vibrato\<rparr>
         else if current s2 = 2 then s2\<lparr>value_sel := Tremolo\<rparr>
         else s2\<lparr>value_sel := AmOn op'\<rparr>)
      else s1)"

text \<open>
  \<open>changeValue()\<close>.  The chain compares the pointer \<open>ym.value\<close> with the address
  of each field, the per-operator ones at the current operator \<open>op = ym.op\<close>, which
  \<open>changeCurrent\<close> keeps within 0..3.
\<close>

definition changeValue :: "state \<Rightarrow> state" where
  "changeValue s =
     (let val = value_sel s; o' = nat (op s); opb = (word_of_int (op s) :: u8) in
      if val = PatchNum then preset (s\<lparr>patchNum := minMaxValue (patchNum s) 0 20\<rparr>)
      else if val = VelSens then s\<lparr>velSens := minMaxValue (velSens s) 0 10\<rparr>
      else if val = MinVel then s\<lparr>minVel := minMaxValue (minVel s) 0 127\<rparr>
      else if val = Polyphony then s\<lparr>polyphony := minMaxValue (polyphony s) 0 2\<rparr>
      else if val = Algorithm then
        (let s1 = s\<lparr>algorithm := minMaxValue (algorithm s) 0 7\<rparr> in
         writeToYM opb (word_of_int (algorithm s1)) (word_of_int (feedback s1)) 0xB0 0 3 False True 0 0 0 s1)
      else if val = Feedback then
        (let s1 = s\<lparr>feedback := minMaxValue (feedback s) 0 7\<rparr> in
         writeToYM opb (word_of_int (feedback s1)) (word_of_int (algorithm s1)) 0xB0 3 0 False True 0 0 0 s1)
      else if val = Multiple o' then
        (let s1 = s\<lparr>multiple := (multiple s)[o' := minMaxValue (multiple s ! o') 0 15]\<rparr> in
         writeToYM opb (word_of_int (multiple s1 ! o')) (word_of_int (detune s1 ! o')) 0x30 0 4 True True 6 0 0 s1)
      else if val = Detune o' then
        (let s1 = s\<lparr>detune := (detune s)[o' := minMaxValue (detune s ! o') (-3) 3]\<rparr> in
         writeToYM opb (word_of_int (detune s1 ! o')) (word_of_int (multiple s1 ! o')) 0x30 4 0 True True 5 0 0 s1)
      else if val = TotalLvl o' then
        (let s1 = s\<lparr>totalLvl := (totalLvl s)[o' := minMaxValue (totalLvl s ! o') 0 127]\<rparr> in
         writeToYM opb (word_of_int (totalLvl s1 ! o')) 0 0x40 0 0 True True 9 127 0 s1)
      else if val = Attack o' then
        (let s1 = s\<lparr>attack := (attack s)[o' := minMaxValue (attack s ! o') 0 31]\<rparr> in
         writeToYM opb (word_of_int (attack s1 ! o')) (word_of_int (rateScl s1 ! o')) 0x50 0 6 True True 1 31 0 s1)
      else if val = Decay o' then
        (let s1 = s\<lparr>decay := (decay s)[o' := minMaxValue (decay s ! o') 0 31]\<rparr> in
         writeToYM opb (word_of_int (decay s1 ! o')) (word_of_int (amOn s1 ! o')) 0x60 0 7 True True 1 31 0 s1)
      else if val = SusLvl o' then
        (let s1 = s\<lparr>susLvl := (susLvl s)[o' := minMaxValue (susLvl s ! o') 0 15]\<rparr> in
         writeToYM opb (word_of_int (susLvl s1 ! o')) (word_of_int (release s1 ! o')) 0x80 4 0 True True 3 15 15 s1)
      else if val = SusRate o' then
        (let s1 = s\<lparr>susRate := (susRate s)[o' := minMaxValue (susRate s ! o') 0 31]\<rparr> in
         writeToYM opb (word_of_int (susRate s1 ! o')) 0 0x70 0 0 True True 7 31 0 s1)
      else if val = Release o' then
        (let s1 = s\<lparr>release := (release s)[o' := minMaxValue (release s ! o') 0 15]\<rparr> in
         writeToYM opb (word_of_int (release s1 ! o')) (word_of_int (susLvl s1 ! o')) 0x80 0 4 True True 3 15 15 s1)
      else if val = RateScl o' then
        (let s1 = s\<lparr>rateScl := (rateScl s)[o' := minMaxValue (rateScl s ! o') 0 3]\<rparr> in
         writeToYM opb (word_of_int (rateScl s1 ! o')) (word_of_int (attack s1 ! o')) 0x50 6 0 True True 2 0 31 s1)
      else if val = Ssgeg o' then
        (let s1 = s\<lparr>ssgeg := (ssgeg s)[o' := minMaxValue (ssgeg s ! o') 0 8]\<rparr> in
         if ssgeg s1 ! o' = 0 then writeToYM opb 0 0 0x90 0 3 True True 4 0 0 s1
         else writeToYM opb (word_of_int (ssgeg s1 ! o' - 1)) 1 0x90 0 3 True True 0 0 0 s1)
      else if val = LfoFreq then
        (let s1 = s\<lparr>lfoFreq := minMaxValue (lfoFreq s) 0 8\<rparr> in
         if lfoFreq s1 = 0 then writeToYM opb 0 0 0x22 0 3 False False 0 0 0 s1
         else writeToYM opb (word_of_int (lfoFreq s1 - 1)) 1 0x22 0 3 False False 0 0 0 s1)
      else if val = Vibrato then
        (let s1 = s\<lparr>vibrato := minMaxValue (vibrato s) 0 7\<rparr> in
         writeToYM opb (word_of_int (vibrato s1)) (word_of_int (tremolo s1)) 0xB4 0 4 False True 8 0 0 s1)
      else if val = Tremolo then
        (let s1 = s\<lparr>tremolo := minMaxValue (tremolo s) 0 3\<rparr> in
         writeToYM opb (word_of_int (tremolo s1)) (word_of_int (vibrato s1)) 0xB4 4 0 False True 8 0 0 s1)
      else if val = AmOn o' then
        (let s1 = s\<lparr>amOn := (amOn s)[o' := minMaxValue (amOn s ! o') 0 1]\<rparr> in
         writeToYM opb (word_of_int (amOn s1 ! o')) (word_of_int (decay s1 ! o')) 0x60 7 0 True True 2 0 31 s1)
      else s)"

text \<open>Reading and writing through the pointer \<open>ym.value\<close>.\<close>

fun get_field :: "field \<Rightarrow> state \<Rightarrow> int" where
  "get_field PatchNum s = patchNum s"
| "get_field VelSens s = velSens s"
| "get_field MinVel s = minVel s"
| "get_field Polyphony s = polyphony s"
| "get_field Algorithm s = algorithm s"
| "get_field Feedback s = feedback s"
| "get_field (Multiple k) s = multiple s ! k"
| "get_field (Detune k) s = detune s ! k"
| "get_field (TotalLvl k) s = totalLvl s ! k"
| "get_field (Attack k) s = attack s ! k"
| "get_field (Decay k) s = decay s ! k"
| "get_field (SusLvl k) s = susLvl s ! k"
| "get_field (SusRate k) s = susRate s ! k"
| "get_field (Release k) s = release s ! k"
| "get_field (RateScl k) s = rateScl s ! k"
| "get_field (Ssgeg k) s = ssgeg s ! k"
| "get_field LfoFreq s = lfoFreq s"
| "get_field Vibrato s = vibrato s"
| "get_field Tremolo s = tremolo s"
| "get_field (AmOn k) s = amOn s ! k"

fun set_field :: "field \<Rightarrow> int \<Rightarrow> state \<Rightarrow> state" where
  "set_field PatchNum v s = s\<lparr>patchNum := v\<rparr>"
| "set_field VelSens v s = s\<lparr>velSens := v\<rparr>"
| "set_field MinVel v s = s\<lparr>minVel := v\<rparr>"
| "set_field Polyphony v s = s\<lparr>polyphony := v\<rparr>"
| "set_field Algorithm v s = s\<lparr>algorithm := v\<rparr>"
| "set_field Feedback v s = s\<lparr>feedback := v\<rparr>"
| "set_field (Multiple k) v s = s\<lparr>multiple := (multiple s)[k := v]\<rparr>"
| "set_field (Detune k) v s = s\<lparr>detune := (detune s)[k := v]\<rparr>"
| "set_field (TotalLvl k) v s = s\<lparr>totalLvl := (totalLvl s)[k := v]\<rparr>"
| "set_field (Attack k) v s = s\<lparr>attack := (attack s)[k := v]\<rparr>"
| "set_field (Decay k) v s = s\<lparr>decay := (decay s)[k := v]\<rparr>"
| "set_field (SusLvl k) v s = s\<lparr>susLvl := (susLvl s)[k := v]\<rparr>"
| "set_field (SusRate k) v s = s\<lparr>susRate := (susRate s)[k := v]\<rparr>"
| "set_field (Release k) v s = s\<lparr>release := (release s)[k := v]\<rparr>"
| "set_field (RateScl k) v s = s\<lparr>rateScl := (rateScl s)[k := v]\<rparr>"
| "set_field (Ssgeg k) v s = s\<lparr>ssgeg := (ssgeg s)[k := v]\<rparr>"
| "set_field LfoFreq v s = s\<lparr>lfoFreq := v\<rparr>"
| "set_field Vibrato v s = s\<lparr>vibrato := v\<rparr>"
| "set_field Tremolo v s = s\<lparr>tremolo := v\<rparr>"
| "set_field (AmOn k) v s = s\<lparr>amOn := (amOn s)[k := v]\<rparr>"

text \<open>
  \<open>PCINT2_vect\<close>, the encoder turned with neither button held:
  \<open>++*ym.value; changeValue();\<close> when clockwise, \<open>--*ym.value; changeValue();\<close> when
  counterclockwise.
\<close>

definition turn_value :: "bool \<Rightarrow> state \<Rightarrow> state" where
  "turn_value clockwise s =
     changeValue (set_field (value_sel s)
        (if clockwise then get_field (value_sel s) s + 1 else get_field (value_sel s) s - 1) s)"

subsection \<open>USART_RX_vect: MIDI bytes\<close>

text \<open>The block \<open>if (data < 0xF8)\<close>: the byte is stored in the buffer.\<close>

definition rx_store :: "u8 \<Rightarrow> state \<Rightarrow> state" where
  "rx_store udr s =
     (let data = uint udr in
      if data < 0xF8 then
        s\<lparr>midiBuf := (midiBuf s)(nat (midiIndex s) := data),
          msgStart := (if (data AND 0xF0) \<ge> 0x80 then word_of_int (midiIndex s) else msgStart s),
          midiIndex := minMaxValue (midiIndex s + 1) 0 127\<rparr>
      else s)"

text \<open>The locals \<open>data1\<close>, \<open>data2\<close> (with \<open>case1\<close>, \<open>case2\<close>) read back from the buffer.\<close>

definition rx_data1 :: "state \<Rightarrow> int" where
  "rx_data1 s =
     (if msgStart s = 127 then midiBuf s 0
      else if msgStart s = 126 then midiBuf s 127
      else midiBuf s (unat (msgStart s) + 1))"

definition rx_data2 :: "state \<Rightarrow> int" where
  "rx_data2 s =
     (if msgStart s = 127 then midiBuf s 1
      else if msgStart s = 126 then midiBuf s 0
      else midiBuf s (unat (msgStart s) + 2))"

text \<open>The two tests "message is 3 bytes long" and "message is 2 bytes".\<close>

definition rx_is3 :: "state \<Rightarrow> bool" where
  "rx_is3 s \<longleftrightarrow>
     midiIndex s - uint (msgStart s) = 3 \<or> (midiIndex s = 2 \<and> msgStart s = 127)
     \<or> (midiIndex s = 1 \<and> msgStart s = 126)"

definition rx_is2 :: "state \<Rightarrow> bool" where
  "rx_is2 s \<longleftrightarrow>
     midiIndex s - uint (msgStart s) = 2 \<or> (midiIndex s = 1 \<and> msgStart s = 127)
     \<or> (midiIndex s = 0 \<and> msgStart s = 126)"

text \<open>\<open>glb.midiBuf[glb.msgStart] & 0xF0\<close>.\<close>

definition rx_status :: "state \<Rightarrow> int" where
  "rx_status s = midiBuf s (unat (msgStart s)) AND 0xF0"

text \<open>\<open>case 0xB0\<close>: controllers.\<close>

definition controller :: "int \<Rightarrow> int \<Rightarrow> state \<Rightarrow> state" where
  "controller data1 data2 s =
     (if data1 = 1 then
        (if data2 = 0 then
           (if lfoFreq s = 0 then sendreg 0 0x22 0 s
            else sendreg 0 0x22 (word_of_int (0x08 + lfoFreq s - 1)) s)
         else sendreg 0 0x22 (word_of_int (0x08 + data2 sdiv 18)) s)
      else if data1 = 64 then
        (if data2 = 0 then s\<lparr>sustain := True\<rparr> else s\<lparr>sustain := False\<rparr>)
      else s)"

text \<open>The switch of the three-byte messages.\<close>

definition midi3 :: "state \<Rightarrow> state" where
  "midi3 s =
     (if rx_status s = 0x90 then note_fn (word_of_int (rx_data1 s)) (word_of_int (rx_data2 s)) True s
      else if rx_status s = 0x80 then note_fn (word_of_int (rx_data1 s)) (word_of_int (rx_data2 s)) False s
      else if rx_status s = 0xB0 then controller (rx_data1 s) (rx_data2 s) s
      else s)"

text \<open>\<open>case 0xD0\<close>: aftertouch, loops \<open>i < 3\<close> outside and \<open>j < 2\<close> inside.\<close>

fun aftertouch_j :: "nat \<Rightarrow> u8 \<Rightarrow> nat list \<Rightarrow> state \<Rightarrow> state" where
  "aftertouch_j i d [] s = s"
| "aftertouch_j i d (j # rest) s = aftertouch_j i d rest (sendreg (of_nat j) (0xB4 + of_nat i) d s)"

fun aftertouch_i :: "u8 \<Rightarrow> nat list \<Rightarrow> state \<Rightarrow> state" where
  "aftertouch_i d [] s = s"
| "aftertouch_i d (i # rest) s = aftertouch_i d rest (aftertouch_j i d [0..<2] s)"

text \<open>\<open>case 0xE0\<close>: pitch bend switches every channel off.\<close>

fun all_off :: "nat list \<Rightarrow> state \<Rightarrow> state" where
  "all_off [] s = s"
| "all_off (i # rest) s =
     all_off rest
       ((sendreg 0 0x28 (0x00 + chan ! i) s)
          \<lparr>chans := (chans s)[i := (chans s ! i)\<lparr>notesOn0 := 0, notesOn1 := False, notesOn2 := False\<rparr>]\<rparr>)"

text \<open>The switch of the two-byte messages.\<close>

definition midi2 :: "state \<Rightarrow> state" where
  "midi2 s =
     (if rx_status s = 0xD0 then
        (if rx_data1 s = 0
         then aftertouch_i (word_of_int (0xC0 + push_bit 4 (tremolo s) + vibrato s)) [0..<3] s
         else aftertouch_i (word_of_int (0xC0 + push_bit 4 (tremolo s) + rx_data1 s sdiv 18)) [0..<3] s)
      else if rx_status s = 0xE0 then all_off [0..<6] s
      else s)"

definition USART_RX_vect :: "u8 \<Rightarrow> state \<Rightarrow> state" where
  "USART_RX_vect udr s =
     (let s1 = rx_store udr s in
      if rx_is3 s1 then midi3 s1
      else if rx_is2 s1 then midi2 s1
      else s1)"

subsection \<open>The writes of writeToYM and changeAllParams, and the bounds of the fields\<close>

text \<open>The SPI writes of one call of \<open>writeToYM\<close>.\<close>

definition writeToYM_out ::
  "u8 \<Rightarrow> u8 \<Rightarrow> u8 \<Rightarrow> u8 \<Rightarrow> u8 \<Rightarrow> u8 \<Rightarrow> bool \<Rightarrow> bool \<Rightarrow> u8 \<Rightarrow> u8 \<Rightarrow> u8 \<Rightarrow> regwrite list" where
  "writeToYM_out op' val1 val2 baseReg bitShift1 bitShift2 multiOp multiChannel options subValue1 subValue2 =
     (if multiChannel then
        concat (map (\<lambda>j. map (\<lambda>i. (of_nat j,
                  (if multiOp then baseReg + opOffset ! unat op' else baseReg) + of_nat i,
                  dataToWrite options val1 val2 bitShift1 bitShift2 subValue1 subValue2)) [0..<3]) [0..<2])
      else [(0, baseReg, word_of_int (uint val1 + push_bit (unat bitShift2) (uint val2)))])"

text \<open>The SPI writes of \<open>changeAllParams\<close>: of one operator's pass, and of the whole call.\<close>

definition changeAllParams_op_out ::
  "int list \<Rightarrow> int list \<Rightarrow> int list \<Rightarrow> int list \<Rightarrow> int list \<Rightarrow> int list \<Rightarrow> int list \<Rightarrow>
   int list \<Rightarrow> int list \<Rightarrow> int list \<Rightarrow> int list \<Rightarrow> nat \<Rightarrow> regwrite list" where
  "changeAllParams_op_out mult det tl' atk dcy sl sr rel rs eg am i =
     writeToYM_out (of_nat i) (word_of_int (mult ! i)) (word_of_int (det ! i)) 0x30 0 4 True True 6 0 0 @
     writeToYM_out (of_nat i) (word_of_int (tl' ! i)) 0 0x40 0 0 True True 9 127 0 @
     writeToYM_out (of_nat i) (word_of_int (atk ! i)) (word_of_int (rs ! i)) 0x50 0 6 True True 1 31 0 @
     writeToYM_out (of_nat i) (word_of_int (dcy ! i)) (word_of_int (am ! i)) 0x60 0 7 True True 1 31 0 @
     writeToYM_out (of_nat i) (word_of_int (sl ! i)) (word_of_int (rel ! i)) 0x80 4 0 True True 3 15 15 @
     writeToYM_out (of_nat i) (word_of_int (sr ! i)) 0 0x70 0 0 True True 7 31 0 @
     (if eg ! i = 0 then writeToYM_out (of_nat i) 0 0 0x90 0 3 True True 4 0 0
      else writeToYM_out (of_nat i) (word_of_int (eg ! i - 1)) 1 0x90 0 3 True True 0 0 0)"

definition changeAllParams_out ::
  "int \<Rightarrow> int \<Rightarrow> int \<Rightarrow> int \<Rightarrow> int \<Rightarrow>
   int list \<Rightarrow> int list \<Rightarrow> int list \<Rightarrow> int list \<Rightarrow> int list \<Rightarrow> int list \<Rightarrow> int list \<Rightarrow>
   int list \<Rightarrow> int list \<Rightarrow> int list \<Rightarrow> int list \<Rightarrow> regwrite list" where
  "changeAllParams_out alg fb lfo vib trem mult det tl' atk dcy sl sr rel rs eg am =
     writeToYM_out 0 (word_of_int alg) (word_of_int fb) 0xB0 0 3 False True 0 0 0 @
     (if lfo = 0 then writeToYM_out 0 0 0 0x22 0 3 False False 0 0 0
      else writeToYM_out 0 (word_of_int (lfo - 1)) 1 0x22 0 3 False False 0 0 0) @
     writeToYM_out 0 (word_of_int vib) (word_of_int trem) 0xB4 0 4 False True 8 0 0 @
     concat (map (changeAllParams_op_out mult det tl' atk dcy sl sr rel rs eg am) [0..<4])"

text \<open>The documented bounds of the fields (section 3 of the specification).\<close>

fun bounds :: "field \<Rightarrow> int \<times> int" where
  "bounds PatchNum = (0, 20)"
| "bounds VelSens = (0, 10)"
| "bounds MinVel = (0, 127)"
| "bounds Polyphony = (0, 2)"
| "bounds Algorithm = (0, 7)"
| "bounds Feedback = (0, 7)"
| "bounds (Multiple k) = (0, 15)"
| "bounds (Detune k) = (-3, 3)"
| "bounds (TotalLvl k) = (0, 127)"
| "bounds (Attack k) = (0, 31)"
| "bounds (Decay k) = (0, 31)"
| "bounds (SusLvl k) = (0, 15)"
| "bounds (SusRate k) = (0, 31)"
| "bounds (Release k) = (0, 15)"
| "bounds (RateScl k) = (0, 3)"
| "bounds (Ssgeg k) = (0, 8)"
| "bounds LfoFreq = (0, 8)"
| "bounds Vibrato = (0, 7)"
| "bounds Tremolo = (0, 3)"
| "bounds (AmOn k) = (0, 1)"

text \<open>The operator index of a per-operator field.\<close>

fun field_op :: "field \<Rightarrow> nat option" where
  "field_op (Multiple k) = Some k"
| "field_op (Detune k) = Some k"
| "field_op (TotalLvl k) = Some k"
| "field_op (Attack k) = Some k"
| "field_op (Decay k) = Some k"
| "field_op (SusLvl k) = Some k"
| "field_op (SusRate k) = Some k"
| "field_op (Release k) = Some k"
| "field_op (RateScl k) = Some k"
| "field_op (Ssgeg k) = Some k"
| "field_op (AmOn k) = Some k"
| "field_op _ = None"

text \<open>
  The per-operator arrays have their four elements, and \<open>ym.value\<close> points to a
  global field or to a per-operator field of the current operator, which is within
  0..3: what \<open>changeGroup\<close> and \<open>changeCurrent\<close> establish.
\<close>

definition arrays_ok :: "state \<Rightarrow> bool" where
  "arrays_ok s \<longleftrightarrow>
     length (detune s) = 4 \<and> length (multiple s) = 4 \<and> length (totalLvl s) = 4 \<and>
     length (attack s) = 4 \<and> length (decay s) = 4 \<and> length (susLvl s) = 4 \<and>
     length (susRate s) = 4 \<and> length (release s) = 4 \<and> length (rateScl s) = 4 \<and>
     length (ssgeg s) = 4 \<and> length (amOn s) = 4"

definition sel_ok :: "state \<Rightarrow> bool" where
  "sel_ok s \<longleftrightarrow>
     0 \<le> op s \<and> op s < 4 \<and> arrays_ok s \<and>
     (field_op (value_sel s) = None \<or> field_op (value_sel s) = Some (nat (op s)))"

text \<open>
  Every field of the store within its bounds: the scalars and the four elements of each
  per-operator array.
\<close>

definition all_fields :: "field list" where
  "all_fields =
     [PatchNum, VelSens, MinVel, Polyphony, Algorithm, Feedback, LfoFreq, Vibrato, Tremolo] @
     concat (map (\<lambda>k. [Multiple k, Detune k, TotalLvl k, Attack k, Decay k, SusLvl k, SusRate k,
                        Release k, RateScl k, Ssgeg k, AmOn k]) [0..<4])"

definition within :: "field \<Rightarrow> state \<Rightarrow> bool" where
  "within F s \<longleftrightarrow> fst (bounds F) \<le> get_field F s \<and> get_field F s \<le> snd (bounds F)"

definition store_ok :: "state \<Rightarrow> bool" where
  "store_ok s \<longleftrightarrow> list_all (\<lambda>F. within F s) all_fields"

text \<open>The values a preset passes for the fields that \<open>changeAllParams\<close> stores.\<close>

definition params_ok ::
  "int \<Rightarrow> int \<Rightarrow> int \<Rightarrow> int \<Rightarrow> int \<Rightarrow>
   int list \<Rightarrow> int list \<Rightarrow> int list \<Rightarrow> int list \<Rightarrow> int list \<Rightarrow> int list \<Rightarrow> int list \<Rightarrow>
   int list \<Rightarrow> int list \<Rightarrow> int list \<Rightarrow> bool" where
  "params_ok alg fb lfo vib trem mult det tl' atk dcy sl sr rs eg am \<longleftrightarrow>
     0 \<le> alg \<and> alg \<le> 7 \<and> 0 \<le> fb \<and> fb \<le> 7 \<and> 0 \<le> lfo \<and> lfo \<le> 8 \<and>
     0 \<le> vib \<and> vib \<le> 7 \<and> 0 \<le> trem \<and> trem \<le> 3 \<and>
     length mult = 4 \<and> list_all (\<lambda>v. 0 \<le> v \<and> v \<le> 15) mult \<and>
     length det = 4 \<and> list_all (\<lambda>v. - 3 \<le> v \<and> v \<le> 3) det \<and>
     length tl' = 4 \<and> list_all (\<lambda>v. 0 \<le> v \<and> v \<le> 127) tl' \<and>
     length atk = 4 \<and> list_all (\<lambda>v. 0 \<le> v \<and> v \<le> 31) atk \<and>
     length dcy = 4 \<and> list_all (\<lambda>v. 0 \<le> v \<and> v \<le> 31) dcy \<and>
     length sl = 4 \<and> list_all (\<lambda>v. 0 \<le> v \<and> v \<le> 15) sl \<and>
     length sr = 4 \<and> list_all (\<lambda>v. 0 \<le> v \<and> v \<le> 31) sr \<and>
     length rs = 4 \<and> list_all (\<lambda>v. 0 \<le> v \<and> v \<le> 3) rs \<and>
     length eg = 4 \<and> list_all (\<lambda>v. 0 \<le> v \<and> v \<le> 8) eg \<and>
     length am = 4 \<and> list_all (\<lambda>v. 0 \<le> v \<and> v \<le> 1) am"

text \<open>What loading a patch keeps and what it establishes.\<close>

definition patch_loaded :: "state \<Rightarrow> state \<Rightarrow> bool" where
  "patch_loaded s s' \<longleftrightarrow>
     arrays_ok s' \<and> op s' = op s \<and> value_sel s' = value_sel s \<and>
     patchNum s' = patchNum s \<and> release s' = release s \<and> (store_ok s \<longrightarrow> store_ok s')"

subsection \<open>What one pass of the tick loop does, seen from the state at entry\<close>

text \<open>The write of the level of operator \<open>k\<close> of channel \<open>i\<close>.\<close>

definition level_write :: "state \<Rightarrow> nat \<Rightarrow> nat \<Rightarrow> regwrite" where
  "level_write s i k = (chanGrp i, 0x40 + of_nat (i mod 3) + opOffset ! k, word_of_int (127 - opLvl s i k))"

text \<open>The rows of channel \<open>i\<close> after its pass, and the writes of that pass.\<close>

definition tick_slot :: "bool \<Rightarrow> channel \<Rightarrow> channel" where
  "tick_slot sus c =
     (if notesOn1 c \<and> \<not> notesOn2 c then c\<lparr>notesOn2 := True\<rparr>
      else if \<not> notesOn1 c \<and> notesOn2 c \<and> \<not> sus
      then c\<lparr>notesOn0 := 0, notesOn1 := False, notesOn2 := False\<rparr>
      else c)"

definition tick_out :: "state \<Rightarrow> nat \<Rightarrow> regwrite list" where
  "tick_out s i =
     (if notesOn1 (chans s ! i) \<and> \<not> notesOn2 (chans s ! i)
      then map (level_write s i) [0..<4] @
           [(chanGrp i, 0xA4 + of_nat (i mod 3), freq0 (chans s ! i)),
            (chanGrp i, 0xA0 + of_nat (i mod 3), freq1 (chans s ! i)),
            (0, 0x28, 0xF0 + chan ! i)]
      else if \<not> notesOn1 (chans s ! i) \<and> notesOn2 (chans s ! i) \<and> \<not> sustain s
      then [(0, 0x28, 0x00 + chan ! i)]
      else [])"

subsection \<open>The state that main() sets up\<close>

text \<open>
  The globals are zero-initialised; \<open>main\<close> then sets \<open>patchNum = 15\<close>,
  \<open>value = &patchNum\<close>, \<open>velSens = 2\<close> and \<open>minVel = 50\<close>.  This is the state just
  before \<open>main\<close> calls \<open>preset()\<close>.
\<close>

definition idle_chan :: channel where
  "idle_chan = \<lparr>notesOn0 = 0, notesOn1 = False, notesOn2 = False, freq0 = 0, freq1 = 0, vel = 0\<rparr>"

definition main_init :: state where
  "main_init =
     \<lparr>op = 0, group = 0, current = 0, value_sel = PatchNum,
      chans = [idle_chan, idle_chan, idle_chan, idle_chan, idle_chan, idle_chan],
      sustain = False, patchNum = 15, velSens = 2, minVel = 50, polyphony = 0,
      algorithm = 0, feedback = 0,
      detune = [0, 0, 0, 0], multiple = [0, 0, 0, 0], totalLvl = [0, 0, 0, 0],
      attack = [0, 0, 0, 0], decay = [0, 0, 0, 0], susLvl = [0, 0, 0, 0],
      susRate = [0, 0, 0, 0], release = [0, 0, 0, 0], rateScl = [0, 0, 0, 0],
      ssgeg = [0, 0, 0, 0], lfoFreq = 0, vibrato = 0, tremolo = 0, amOn = [0, 0, 0, 0],
      midiBuf = (\<lambda>_. 0), midiIndex = 0, msgStart = 0, spi = []\<rparr>"

subsection \<open>The states of the examples\<close>

text \<open>Note 60 is played and one tick has passed: channel 0 sounds it.\<close>

definition one_note :: state where
  "one_note = TIMER1_OVF_vect (note_fn 60 100 True main_init)"

text \<open>
  Notes 48 and 60 are played, each followed by a tick, then 48 is released and a tick
  passes: channel 0 is free again and channel 1 still sounds note 60.
\<close>

definition gap_below_note :: state where
  "gap_below_note =
     TIMER1_OVF_vect (note_fn 48 0 False
       (TIMER1_OVF_vect (note_fn 60 100 True
         (TIMER1_OVF_vect (note_fn 48 100 True main_init)))))"

text \<open>Note 60 sounds on channel 0 and the sustain flag is set.\<close>

definition pedal_note :: state where
  "pedal_note = one_note\<lparr>sustain := True\<rparr>"

text \<open>
  The bytes \<open>0xB0, 1\<close> (controller, mod wheel) have arrived while the stored LFO
  frequency is 3; and the bytes \<open>0xB0, 64\<close> (controller, sustain) while note 60 sounds.
\<close>

definition wheel_pending :: state where
  "wheel_pending = USART_RX_vect 1 (USART_RX_vect 0xB0 (main_init\<lparr>lfoFreq := 3\<rparr>))"

definition pedal_pending :: state where
  "pedal_pending = USART_RX_vect 64 (USART_RX_vect 0xB0 one_note)"

text \<open>
  The state in which \<open>main\<close> enables the interrupts: after \<open>preset()\<close> and
  \<open>changeGroup()\<close>.
\<close>

definition startup :: state where
  "startup = changeGroup (preset main_init)"

text \<open>The detune of operator 1 is selected and holds its maximum, or its minimum.\<close>

definition detune_max :: state where
  "detune_max = main_init\<lparr>group := 1, current := 3, value_sel := Detune 0, detune := [3, 0, 0, 0]\<rparr>"

definition detune_min :: state where
  "detune_min = main_init\<lparr>group := 1, current := 3, value_sel := Detune 0, detune := [- 3, 0, 0, 0]\<rparr>"

text \<open>
  The patch number is selected and holds \<open>n\<close>, and \<open>ym.release\<close> is still as
  \<open>main\<close> left it.
\<close>

definition patch_at :: "int \<Rightarrow> state \<Rightarrow> bool" where
  "patch_at n s \<longleftrightarrow> sel_ok s \<and> value_sel s = PatchNum \<and> patchNum s = n \<and> release s = [0, 0, 0, 0]"

text \<open>
  Five detents clockwise after the start, with no button held: the patch number has gone
  from 15 to 20.  The sixth detent takes it to 21.
\<close>

definition last_patch :: state where
  "last_patch = turn_value True (turn_value True (turn_value True (turn_value True (turn_value True startup))))"

definition wrapped_patch :: state where
  "wrapped_patch = turn_value True last_patch"

text \<open>
  One controller message that the program ignores (controller 7, data 100, the bytes
  \<open>0xB0, 7, 100\<close>); and the state after 127 of them from the start.  Each message
  moves the buffer index on by three, so the next status byte is stored at index
  \<open>381 mod 128 = 125\<close>.
\<close>

definition other_controller :: "state \<Rightarrow> state" where
  "other_controller s = USART_RX_vect 100 (USART_RX_vect 7 (USART_RX_vect 0xB0 s))"

definition quiet_127 :: state where
  "quiet_127 = (other_controller ^^ 127) startup"

section \<open>Properties\<close>

subsection \<open>The tick loop\<close>

lemma upt6: "[0..<6] = [0, 1, 2, 3, 4, 5]"
  by (simp add: upt_rec)

lemma upt4: "[0..<4] = [0, 1, 2, 3]"
  by (simp add: upt_rec)

lemma sendreg_fields:
  "chans (sendreg f r d s) = chans s"
  "sustain (sendreg f r d s) = sustain s"
  "velSens (sendreg f r d s) = velSens s"
  "totalLvl (sendreg f r d s) = totalLvl s"
  "spi (sendreg f r d s) = spi s @ [(f, r, d)]"
  by (simp_all add: sendreg_def)

lemma opLvl_sendreg: "opLvl (sendreg f r d s) i k = opLvl s i k"
  by (simp add: opLvl_def sendreg_fields)
lemma tick_levels_eq:
  "tick_levels i ks s = s\<lparr>spi := spi s @ map (level_write s i) ks\<rparr>"
proof (induction ks arbitrary: s)
  case Nil
  show ?case by simp
next
  case (Cons k ks)
  have "map (level_write (sendreg (chanGrp i) (0x40 + of_nat (i mod 3) + opOffset ! k) (word_of_int (127 - opLvl s i k)) s) i) ks
      = map (level_write s i) ks"
    by (simp add: level_write_def opLvl_sendreg)
  then show ?case
    by (simp add: Cons.IH) (simp add: sendreg_def level_write_def)
qed
lemma tick_chan_eq:
  "tick_chan i s = s\<lparr>chans := (chans s)[i := tick_slot (sustain s) (chans s ! i)],
                     spi := spi s @ tick_out s i\<rparr>"
  by (simp add: tick_chan_def tick_slot_def tick_out_def tick_levels_eq sendreg_def Let_def)


lemma tick_out_cong:
  "chans s' ! j = chans s ! j \<Longrightarrow> sustain s' = sustain s \<Longrightarrow> velSens s' = velSens s
   \<Longrightarrow> totalLvl s' = totalLvl s \<Longrightarrow> tick_out s' j = tick_out s j"
  by (simp add: tick_out_def level_write_def opLvl_def)

lemma tick_loop_eq:
  "distinct js \<Longrightarrow>
   tick_loop js s = s\<lparr>chans := fold (\<lambda>i cs. cs[i := tick_slot (sustain s) (cs ! i)]) js (chans s),
                      spi := spi s @ concat (map (tick_out s) js)\<rparr>"
proof (induction js arbitrary: s)
  case Nil
  show ?case by simp
next
  case (Cons i js)
  let ?s' = "tick_chan i s"
  have d: "distinct js" and ni: "i \<notin> set js" using Cons.prems by auto
  have outs: "map (tick_out ?s') js = map (tick_out s) js"
  proof (rule map_cong [OF refl])
    fix j assume "j \<in> set js"
    then have "j \<noteq> i" using ni by auto
    then show "tick_out ?s' j = tick_out s j"
      by (intro tick_out_cong) (simp_all add: tick_chan_eq)
  qed
  have sus: "sustain ?s' = sustain s" by (simp add: tick_chan_eq)
  have "tick_loop (i # js) s = tick_loop js ?s'" by simp
  also have "\<dots> = ?s'\<lparr>chans := fold (\<lambda>i cs. cs[i := tick_slot (sustain s) (cs ! i)]) js (chans ?s'),
                      spi := spi ?s' @ concat (map (tick_out s) js)\<rparr>"
    using Cons.IH [OF d, of ?s'] by (simp only: outs sus)
  also have "\<dots> = s\<lparr>chans := fold (\<lambda>i cs. cs[i := tick_slot (sustain s) (cs ! i)]) (i # js) (chans s),
                      spi := spi s @ concat (map (tick_out s) (i # js))\<rparr>"
    by (simp add: tick_chan_eq)
  finally show ?case .
qed

lemma fold_upd_length:
  "length (fold (\<lambda>i cs. cs[i := f (cs ! i)]) js cs) = length cs"
  by (induction js arbitrary: cs) simp_all

lemma fold_upd_nth:
  "distinct js \<Longrightarrow> j < length cs \<Longrightarrow>
   fold (\<lambda>i cs. cs[i := f (cs ! i)]) js cs ! j = (if j \<in> set js then f (cs ! j) else cs ! j)"
proof (induction js arbitrary: cs)
  case Nil
  show ?case by simp
next
  case (Cons i js)
  show ?case
  proof (cases "j = i")
    case True
    then show ?thesis using Cons by simp
  next
    case False
    then have "cs[i := f (cs ! i)] ! j = cs ! j" by simp
    then show ?thesis using Cons False by simp
  qed
qed

lemma fold_upd_all:
  "fold (\<lambda>i cs. cs[i := f (cs ! i)]) [0..<length cs] cs = map f cs"
  by (rule nth_equalityI) (simp_all add: fold_upd_length fold_upd_nth)

lemma TIMER1_OVF_vect_eq:
  assumes "length (chans s) = 6"
  shows "TIMER1_OVF_vect s = s\<lparr>chans := map (tick_slot (sustain s)) (chans s),
                               spi := spi s @ concat (map (tick_out s) [0..<6])\<rparr>"
proof -
  have "fold (\<lambda>i cs. cs[i := tick_slot (sustain s) (cs ! i)]) [0..<6] (chans s)
        = map (tick_slot (sustain s)) (chans s)"
    using fold_upd_all [of "tick_slot (sustain s)" "chans s"] assms by simp
  then show ?thesis
    by (simp only: TIMER1_OVF_vect_def tick_loop_eq [OF distinct_upt])
qed
lemma upt_split_at: "i < n \<Longrightarrow> [0..<n] = [0..<i] @ i # [Suc i..<n]"
proof -
  assume a: "i < n"
  then have "[0..<n] = [0..<i] @ [i..<n]"
    using upt_add_eq_append [of 0 i "n - i"] by simp
  then show ?thesis using a by (simp add: upt_conv_Cons)
qed
lemma tick_slot_stable:
  "tick_slot b (tick_slot b c) = tick_slot b c"
  by (simp add: tick_slot_def)

lemma tick_out_after:
  assumes "length (chans s) = 6" and "i < 6"
  shows "tick_out (TIMER1_OVF_vect s) i = []"
  using assms by (simp add: TIMER1_OVF_vect_eq tick_out_def tick_slot_def)

text \<open>
  C5. Two ticks in a row with nothing in between: the second one sends nothing over
  SPI (and changes nothing at all), whatever the six channels hold, also when the
  sustain flag keeps channels sounding.
\<close>

theorem tick_idempotent:
  assumes "length (chans s) = 6"
  shows "spi (TIMER1_OVF_vect (TIMER1_OVF_vect s)) = spi (TIMER1_OVF_vect s) \<and>
         TIMER1_OVF_vect (TIMER1_OVF_vect s) = TIMER1_OVF_vect s"
proof -
  let ?t = "TIMER1_OVF_vect s"
  have len: "length (chans ?t) = 6" using assms by (simp add: TIMER1_OVF_vect_eq)
  have "map (tick_out ?t) [0..<6] = map (\<lambda>_. []) [0..<6]"
    by (rule map_cong [OF refl]) (simp add: tick_out_after [OF assms])
  then have outs: "concat (map (tick_out ?t) [0..<6]) = []" by simp
  have sus: "sustain ?t = sustain s" using assms by (simp add: TIMER1_OVF_vect_eq)
  have "map (tick_slot (sustain ?t)) (chans ?t) = chans ?t"
    using assms by (simp add: TIMER1_OVF_vect_eq tick_slot_stable)
  then have "TIMER1_OVF_vect ?t = ?t"
    by (simp add: TIMER1_OVF_vect_eq [OF len] outs)
  then show ?thesis by simp
qed

theorem tick_idempotent_witness:
  "length (chans (note_fn 60 100 True main_init)) = 6 \<and>
   spi (TIMER1_OVF_vect (TIMER1_OVF_vect (note_fn 60 100 True main_init)))
     = spi (TIMER1_OVF_vect (note_fn 60 100 True main_init))"
proof -
  have h: "length (chans (note_fn 60 100 True main_init)) = 6"
    by (simp add: note_fn_def upt6 main_init_def idle_chan_def note_assign_def)
  show ?thesis using h tick_idempotent [OF h] by simp
qed

subsection \<open>The loops of note()\<close>

lemma note_on_loop_skip:
  "(\<And>j. j \<in> set pre \<Longrightarrow> (notesOn1 (chans s ! j) \<or> notesOn2 (chans s ! j)) \<and>
        \<not> (notesOn1 (chans s ! j) \<and> notesOn2 (chans s ! j) \<and> notesOn0 (chans s ! j) = n))
   \<Longrightarrow> note_on_loop n v (pre @ rest) s = note_on_loop n v rest s"
  by (induction pre) auto

lemma note_off_loop_skip:
  "(\<And>j. j \<in> set pre \<Longrightarrow>
        \<not> (notesOn1 (chans s ! j) \<and> notesOn2 (chans s ! j) \<and> notesOn0 (chans s ! j) = n))
   \<Longrightarrow> note_off_loop n (pre @ rest) s = note_off_loop n rest s"
  by (induction pre) auto

lemma note_on_assigns:
  assumes "i < 6"
    and "\<not> notesOn1 (chans s ! i)" and "\<not> notesOn2 (chans s ! i)"
    and "\<And>j. j < i \<Longrightarrow> (notesOn1 (chans s ! j) \<or> notesOn2 (chans s ! j)) \<and>
        \<not> (notesOn1 (chans s ! j) \<and> notesOn2 (chans s ! j) \<and> notesOn0 (chans s ! j) = n)"
  shows "note_fn n v True s = note_assign n v i s"
proof -
  have "note_on_loop n v ([0..<i] @ i # [Suc i..<6]) s = note_on_loop n v (i # [Suc i..<6]) s"
    by (rule note_on_loop_skip) (use assms(4) in auto)
  then show ?thesis
    using assms(1-3) by (simp add: note_fn_def upt_split_at [of i 6])
qed

lemma note_on_retriggers:
  assumes "i < 6"
    and "notesOn1 (chans s ! i)" and "notesOn2 (chans s ! i)" and "notesOn0 (chans s ! i) = n"
    and "\<And>j. j < i \<Longrightarrow> (notesOn1 (chans s ! j) \<or> notesOn2 (chans s ! j)) \<and>
        \<not> (notesOn1 (chans s ! j) \<and> notesOn2 (chans s ! j) \<and> notesOn0 (chans s ! j) = n)"
  shows "note_fn n v True s = note_retrigger i s"
proof -
  have "note_on_loop n v ([0..<i] @ i # [Suc i..<6]) s = note_on_loop n v (i # [Suc i..<6]) s"
    by (rule note_on_loop_skip) (use assms(5) in auto)
  then show ?thesis
    using assms(1-4) by (simp add: note_fn_def upt_split_at [of i 6])
qed

lemma note_off_clears:
  assumes "i < 6"
    and "notesOn1 (chans s ! i)" and "notesOn2 (chans s ! i)" and "notesOn0 (chans s ! i) = n"
    and "\<And>j. j < i \<Longrightarrow>
        \<not> (notesOn1 (chans s ! j) \<and> notesOn2 (chans s ! j) \<and> notesOn0 (chans s ! j) = n)"
  shows "note_fn n v False s = s\<lparr>chans := (chans s)[i := (chans s ! i)\<lparr>notesOn1 := False\<rparr>]\<rparr>"
proof -
  have "note_off_loop n ([0..<i] @ i # [Suc i..<6]) s = note_off_loop n (i # [Suc i..<6]) s"
    by (rule note_off_loop_skip) (use assms(5) in auto)
  then show ?thesis
    using assms(1-4) by (simp add: note_fn_def upt_split_at [of i 6])
qed

subsection \<open>Key-off writes and the sustain flag\<close>

lemma lt6_cases: "i < 6 \<Longrightarrow> i = 0 \<or> i = 1 \<or> i = 2 \<or> i = 3 \<or> i = 4 \<or> i = (5::nat)"
  by arith

lemma chan_nth:
  "chan ! 0 = 0" "chan ! Suc 0 = 1" "chan ! 2 = 2" "chan ! 3 = 4" "chan ! 4 = 5" "chan ! 5 = 6"
  by (simp_all add: chan_def)

lemma chan_inj: "i < 6 \<Longrightarrow> j < 6 \<Longrightarrow> chan ! i = chan ! j \<Longrightarrow> i = j"
  by (drule lt6_cases, drule lt6_cases) (auto simp: chan_nth)

lemma chan_keyon_neq: "i < 6 \<Longrightarrow> j < 6 \<Longrightarrow> 0xF0 + chan ! j \<noteq> chan ! i"
  by (drule lt6_cases, drule lt6_cases) (auto simp: chan_nth)

lemma level_reg_neq: "k < 4 \<Longrightarrow> (0x40::u8) + of_nat (j mod 3) + opOffset ! k \<noteq> 0x28"
proof -
  assume "k < 4"
  then have k: "k = 0 \<or> k = 1 \<or> k = 2 \<or> k = 3" by arith
  have "j mod 3 < 3" by simp
  then have j: "j mod 3 = 0 \<or> j mod 3 = 1 \<or> j mod 3 = 2" by arith
  show ?thesis using k j by (auto simp: opOffset_def)
qed

lemma pitch_reg_neq:
  "(0xA4::u8) + of_nat (j mod 3) \<noteq> 0x28" "(0xA0::u8) + of_nat (j mod 3) \<noteq> 0x28"
proof -
  have "j mod 3 < 3" by simp
  then have j: "j mod 3 = 0 \<or> j mod 3 = 1 \<or> j mod 3 = 2" by arith
  show "(0xA4::u8) + of_nat (j mod 3) \<noteq> 0x28" using j by auto
  show "(0xA0::u8) + of_nat (j mod 3) \<noteq> 0x28" using j by auto
qed

lemma keyoff_not_in_other:
  assumes "i < 6" and "j < 6" and "j \<noteq> i"
  shows "(0, 0x28, chan ! i) \<notin> set (tick_out s j)"
proof -
  have a: "chan ! j \<noteq> chan ! i" using chan_inj assms by blast
  have b: "0xF0 + chan ! j \<noteq> chan ! i" using chan_keyon_neq assms by blast
  show ?thesis
    using a b by (auto simp: tick_out_def level_write_def level_reg_neq pitch_reg_neq)
qed

lemma count_concat_zero:
  "(\<And>j. j \<in> set js \<Longrightarrow> x \<notin> set (f j)) \<Longrightarrow> count_list (concat (map f js)) x = 0"
  by (induction js) (simp_all add: count_list_0_iff)

lemma tick_held:
  assumes "length (chans t) = 6" and "i < 6" and "sustain t"
    and "\<not> notesOn1 (chans t ! i)" and "notesOn2 (chans t ! i)"
  shows "chans (TIMER1_OVF_vect t) ! i = chans t ! i"
    and "sustain (TIMER1_OVF_vect t)"
    and "length (chans (TIMER1_OVF_vect t)) = 6"
    and "\<exists>ws. spi (TIMER1_OVF_vect t) = spi t @ ws \<and> (0, 0x28, chan ! i) \<notin> set ws"
proof -
  show "chans (TIMER1_OVF_vect t) ! i = chans t ! i"
    using assms by (simp add: TIMER1_OVF_vect_eq tick_slot_def)
  show "sustain (TIMER1_OVF_vect t)" using assms by (simp add: TIMER1_OVF_vect_eq)
  show "length (chans (TIMER1_OVF_vect t)) = 6" using assms by (simp add: TIMER1_OVF_vect_eq)
  have "(0, 0x28, chan ! i) \<notin> set (tick_out t j)" if "j < 6" for j
  proof (cases "j = i")
    case True
    then show ?thesis using assms by (simp add: tick_out_def)
  next
    case False
    then show ?thesis using keyoff_not_in_other assms(2) that by blast
  qed
  then have "(0, 0x28, chan ! i) \<notin> set (concat (map (tick_out t) [0..<6]))" by auto
  then show "\<exists>ws. spi (TIMER1_OVF_vect t) = spi t @ ws \<and> (0, 0x28, chan ! i) \<notin> set ws"
    using assms(1) by (simp add: TIMER1_OVF_vect_eq)
qed

lemma ticks_held:
  assumes "length (chans t) = 6" and "i < 6" and "sustain t"
    and "\<not> notesOn1 (chans t ! i)" and "notesOn2 (chans t ! i)"
  shows "chans ((TIMER1_OVF_vect ^^ k) t) ! i = chans t ! i \<and>
         sustain ((TIMER1_OVF_vect ^^ k) t) \<and>
         length (chans ((TIMER1_OVF_vect ^^ k) t)) = 6 \<and>
         (\<exists>ws. spi ((TIMER1_OVF_vect ^^ k) t) = spi t @ ws \<and> (0, 0x28, chan ! i) \<notin> set ws)"
proof (induction k)
  case 0
  show ?case using assms by simp
next
  case (Suc k)
  let ?u = "(TIMER1_OVF_vect ^^ k) t"
  from Suc obtain ws where u: "chans ?u ! i = chans t ! i" "sustain ?u" "length (chans ?u) = 6"
    "spi ?u = spi t @ ws" "(0, 0x28, chan ! i) \<notin> set ws" by blast
  have off: "\<not> notesOn1 (chans ?u ! i)" "notesOn2 (chans ?u ! i)" using u(1) assms by simp_all
  note th = tick_held [OF u(3) assms(2) u(2) off]
  from th(4) obtain ws' where w: "spi (TIMER1_OVF_vect ?u) = spi ?u @ ws'" "(0, 0x28, chan ! i) \<notin> set ws'"
    by blast
  have "spi (TIMER1_OVF_vect ?u) = spi t @ (ws @ ws') \<and> (0, 0x28, chan ! i) \<notin> set (ws @ ws')"
    using w u by simp
  then show ?case using th(1-3) u(1) by (simp del: append_assoc)
qed

lemma tick_releases:
  assumes "length (chans t) = 6" and "i < 6" and "\<not> sustain t"
    and "\<not> notesOn1 (chans t ! i)" and "notesOn2 (chans t ! i)"
  shows "chans (TIMER1_OVF_vect t) ! i = (chans t ! i)\<lparr>notesOn0 := 0, notesOn1 := False, notesOn2 := False\<rparr>"
    and "count_list (drop (length (spi t)) (spi (TIMER1_OVF_vect t))) (0, 0x28, chan ! i) = 1"
proof -
  show "chans (TIMER1_OVF_vect t) ! i = (chans t ! i)\<lparr>notesOn0 := 0, notesOn1 := False, notesOn2 := False\<rparr>"
    using assms by (simp add: TIMER1_OVF_vect_eq tick_slot_def)
  have own: "tick_out t i = [(0, 0x28, chan ! i)]" using assms by (simp add: tick_out_def)
  have pre: "count_list (concat (map (tick_out t) [0..<i])) (0, 0x28, chan ! i) = 0"
    by (rule count_concat_zero) (use assms(2) keyoff_not_in_other in auto)
  have post: "count_list (concat (map (tick_out t) [Suc i..<6])) (0, 0x28, chan ! i) = 0"
    by (rule count_concat_zero) (use assms(2) keyoff_not_in_other in auto)
  have "concat (map (tick_out t) [0..<6]) =
     concat (map (tick_out t) [0..<i]) @ tick_out t i @ concat (map (tick_out t) [Suc i..<6])"
    by (simp add: upt_split_at [OF assms(2)])
  then have "count_list (concat (map (tick_out t) [0..<6])) (0, 0x28, chan ! i) = 1"
    using pre post own by simp
  then show "count_list (drop (length (spi t)) (spi (TIMER1_OVF_vect t))) (0, 0x28, chan ! i) = 1"
    using assms(1) by (simp add: TIMER1_OVF_vect_eq)
qed

subsection \<open>Evaluation on concrete states\<close>

lemmas ym_eval = TIMER1_OVF_vect_def note_fn_def upt6 upt4 main_init_def idle_chan_def
  note_assign_def note_retrigger_def tick_chan_def sendreg_def chan_def opOffset_def chanGrp_def
  opLvl_def note_oct_def note_noteOut_def notes_tbl_def minMaxValue_def max_c_def Let_def
  signed_divide_int_def

lemma one_note_eq:
  "one_note = main_init
     \<lparr>chans := [\<lparr>notesOn0 = 60, notesOn1 = True, notesOn2 = True, freq0 = 33, freq1 = 55, vel = 100\<rparr>,
                idle_chan, idle_chan, idle_chan, idle_chan, idle_chan],
      spi := [(0, 0x40, 107), (0, 0x48, 107), (0, 0x44, 107), (0, 0x4C, 107),
              (0, 0xA4, 33), (0, 0xA0, 55), (0, 0x28, 0xF0)]\<rparr>"
  by (simp add: one_note_def ym_eval)

lemma gap_below_note_chans:
  "chans gap_below_note =
     [\<lparr>notesOn0 = 0, notesOn1 = False, notesOn2 = False, freq0 = 25, freq1 = 55, vel = 100\<rparr>,
      \<lparr>notesOn0 = 60, notesOn1 = True, notesOn2 = True, freq0 = 33, freq1 = 55, vel = 100\<rparr>,
      idle_chan, idle_chan, idle_chan, idle_chan]"
  by (simp add: gap_below_note_def ym_eval)

subsection \<open>The claims about note() and the tick\<close>

text \<open>
  C1, as the claim states it, fails: a free channel below the sounding one takes the
  note.  In \<open>gap_below_note\<close> channel 1 sounds note 60 and channel 0 is free; note-on 60
  then schedules channel 0 and sends nothing.
\<close>

theorem retrigger_counterexample:
  "notesOn1 (chans gap_below_note ! 1) \<and> notesOn2 (chans gap_below_note ! 1) \<and>
   notesOn0 (chans gap_below_note ! 1) = 60 \<and>
   \<not> notesOn1 (chans gap_below_note ! 0) \<and>
   notesOn1 (chans (note_fn 60 90 True gap_below_note) ! 0) \<and>
   notesOn0 (chans (note_fn 60 90 True gap_below_note) ! 0) = 60 \<and>
   spi (note_fn 60 90 True gap_below_note) = spi gap_below_note"
  by (simp add: gap_below_note_chans note_fn_def upt6 note_assign_def)

text \<open>
  C1, amended. Let channel \<open>i\<close> sound note \<open>n\<close> (should-be-on and is-on both set) and
  be the first channel in the order 0..5 that either is free or sounds \<open>n\<close>, that is, no
  channel below \<open>i\<close> is free or sounds \<open>n\<close>.  Then a note-on for \<open>n\<close> leaves all six
  channels as they are (nothing is allocated, both flags of channel \<open>i\<close> stay set)
  and at once sends key-off, frequency high, frequency low and key-on for channel \<open>i\<close>.
\<close>

theorem retrigger_in_place:
  assumes "i < 6"
    and "notesOn1 (chans s ! i)" and "notesOn2 (chans s ! i)" and "notesOn0 (chans s ! i) = n"
    and "\<forall>j<i. notesOn1 (chans s ! j) \<or> notesOn2 (chans s ! j)"
    and "\<forall>j<i. \<not> (notesOn1 (chans s ! j) \<and> notesOn2 (chans s ! j) \<and> notesOn0 (chans s ! j) = n)"
  shows "chans (note_fn n v2 True s) = chans s \<and>
         spi (note_fn n v2 True s) = spi s @
           [(0, 0x28, chan ! i),
            (chanGrp i, 0xA4 + of_nat (i mod 3), freq0 (chans s ! i)),
            (chanGrp i, 0xA0 + of_nat (i mod 3), freq1 (chans s ! i)),
            (0, 0x28, 0xF0 + chan ! i)]"
proof -
  have "note_fn n v2 True s = note_retrigger i s"
    using assms by (intro note_on_retriggers) auto
  then show ?thesis by (simp add: note_retrigger_def sendreg_def)
qed

theorem retrigger_in_place_witness:
  "notesOn1 (chans one_note ! 0) \<and> notesOn2 (chans one_note ! 0) \<and> notesOn0 (chans one_note ! 0) = 60 \<and>
   chans (note_fn 60 90 True one_note) = chans one_note \<and>
   spi (note_fn 60 90 True one_note) = spi one_note @ [(0, 0x28, 0), (0, 0xA4, 33), (0, 0xA0, 55), (0, 0x28, 0xF0)]"
proof -
  have h: "(0::nat) < 6" "notesOn1 (chans one_note ! 0)" "notesOn2 (chans one_note ! 0)"
    "notesOn0 (chans one_note ! 0) = 60"
    "\<forall>j<0. notesOn1 (chans one_note ! j) \<or> notesOn2 (chans one_note ! j)"
    "\<forall>j<0. \<not> (notesOn1 (chans one_note ! j) \<and> notesOn2 (chans one_note ! j) \<and> notesOn0 (chans one_note ! j) = 60)"
    by (simp_all add: one_note_eq)
  have f: "freq0 (chans one_note ! 0) = 33" "freq1 (chans one_note ! 0) = 55"
    by (simp_all add: one_note_eq)
  show ?thesis
    using retrigger_in_place [OF h, of 90] h(2-4) f by (simp add: chan_def chanGrp_def)
qed

text \<open>
  C2, as the claim states it, fails: \<open>minMaxValue\<close> does not clamp.  Note 5 has
  \<open>5 / 12 - 1 = -1\<close>, clamping gives block 0, the program uses block 7 and stores
  \<open>7 << 3 | 1 = 57\<close> as the high frequency byte.
\<close>

theorem note_block_counterexample:
  "note_oct 5 = 7 \<and> max 0 (min 7 (uint (5::u8) div 12 - 1)) = 0 \<and>
   freq0 (chans (note_fn 5 100 True main_init) ! 0) = 57"
  by (simp add: ym_eval)

text \<open>
  C2, amended. For every note number the octave block is \<open>note / 12 - 1\<close> brought into
  0..7 by \<open>minMaxValue\<close>, which wraps: notes 12..107 use \<open>note / 12 - 1\<close>, notes
  below 12 use block 7 and notes from 108 on use block 0.  The pitch code is the entry
  \<open>note mod 12\<close> of the fixed table of 12 frequencies, and both are what a note-on
  stores in the channel it takes.
\<close>

theorem note_block_wraps:
  "note_oct n = (if uint n < 12 then 7 else if 108 \<le> uint n then 0 else uint n div 12 - 1) \<and>
   0 \<le> note_oct n \<and> note_oct n \<le> 7 \<and>
   note_noteOut n = [311, 329, 349, 370, 392, 415, 440, 466, 493, 523, 554, 586] ! (unat n mod 12) \<and>
   freq0 (chans (note_fn n v True (s\<lparr>chans := idle_chan # cs\<rparr>)) ! 0) =
     word_of_int (push_bit 3 (note_oct n) OR drop_bit 8 (note_noteOut n AND 0x0700)) \<and>
   freq1 (chans (note_fn n v True (s\<lparr>chans := idle_chan # cs\<rparr>)) ! 0) =
     word_of_int (note_noteOut n AND 0x00FF)"
proof -
  have a: "note_oct n = (if uint n < 12 then 7 else if 108 \<le> uint n then 0 else uint n div 12 - 1)"
    unfolding note_oct_def minMaxValue_def by auto
  have b: "0 \<le> note_oct n \<and> note_oct n \<le> 7"
    unfolding note_oct_def minMaxValue_def by auto
  have c: "note_fn n v True (s\<lparr>chans := idle_chan # cs\<rparr>) = note_assign n v 0 (s\<lparr>chans := idle_chan # cs\<rparr>)"
    by (simp add: note_fn_def upt6 idle_chan_def)
  show ?thesis
    using a b by (simp add: c note_assign_def note_noteOut_def notes_tbl_def)
qed

theorem note_block_wraps_witness:
  "note_oct 60 = 4 \<and> note_noteOut 60 = 311 \<and> note_oct 127 = 0 \<and>
   freq0 (chans (note_fn 60 100 True main_init) ! 0) = 33"
  using note_block_wraps [where n = 60 and v = 100 and s = main_init
                  and cs = "[idle_chan, idle_chan, idle_chan, idle_chan, idle_chan]"]
        note_block_wraps [where n = 127 and v = 100 and s = main_init
                  and cs = "[idle_chan, idle_chan, idle_chan, idle_chan, idle_chan]"]
  by (simp add: main_init_def)

text \<open>
  C3, as the claim states it, fails: in \<open>one_note\<close> channel 0 sounds note 60 and
  channels 1..5 are free; note-on 60 retriggers channel 0 and no free channel is taken.
\<close>

theorem note_on_first_idle_counterexample:
  "\<not> notesOn1 (chans one_note ! 1) \<and> \<not> notesOn2 (chans one_note ! 1) \<and>
   chans (note_fn 60 100 True one_note) = chans one_note \<and>
   \<not> notesOn1 (chans (note_fn 60 100 True one_note) ! 1)"
  by (simp add: one_note_eq note_fn_def upt6 note_retrigger_def sendreg_def main_init_def idle_chan_def)

text \<open>
  C3, amended. Let channel \<open>i\<close> be the lowest free channel (should-be-on and is-on both
  clear) and let no channel below it sound note \<open>n\<close>.  Then note-on \<open>(n, v)\<close> changes
  channel \<open>i\<close> only: it is now scheduled (should-be-on set, is-on still clear) with
  note \<open>n\<close> and velocity \<open>max v minVel\<close>; nothing is sent.
\<close>

theorem note_on_first_idle:
  assumes "length (chans s) = 6" and "i < 6"
    and "\<not> notesOn1 (chans s ! i)" and "\<not> notesOn2 (chans s ! i)"
    and "\<forall>j<i. notesOn1 (chans s ! j) \<or> notesOn2 (chans s ! j)"
    and "\<forall>j<i. \<not> (notesOn1 (chans s ! j) \<and> notesOn2 (chans s ! j) \<and> notesOn0 (chans s ! j) = n)"
  shows "(\<forall>j<6. j \<noteq> i \<longrightarrow> chans (note_fn n v True s) ! j = chans s ! j) \<and>
         notesOn1 (chans (note_fn n v True s) ! i) \<and>
         \<not> notesOn2 (chans (note_fn n v True s) ! i) \<and>
         notesOn0 (chans (note_fn n v True s) ! i) = n \<and>
         vel (chans (note_fn n v True s) ! i) = max (uint v) (minVel s) \<and>
         spi (note_fn n v True s) = spi s"
proof -
  have "note_fn n v True s = note_assign n v i s"
    using assms by (intro note_on_assigns) auto
  then show ?thesis using assms(1-4) by (simp add: note_assign_def max_c_def max_def)
qed

theorem note_on_first_idle_witness:
  "\<not> notesOn1 (chans one_note ! 1) \<and> \<not> notesOn2 (chans one_note ! 1) \<and>
   notesOn1 (chans (note_fn 64 20 True one_note) ! 1) \<and>
   \<not> notesOn2 (chans (note_fn 64 20 True one_note) ! 1) \<and>
   notesOn0 (chans (note_fn 64 20 True one_note) ! 1) = 64 \<and>
   vel (chans (note_fn 64 20 True one_note) ! 1) = 50 \<and>
   chans (note_fn 64 20 True one_note) ! 0 = chans one_note ! 0 \<and>
   spi (note_fn 64 20 True one_note) = spi one_note"
proof -
  have h: "length (chans one_note) = 6" "(1::nat) < 6"
    "\<not> notesOn1 (chans one_note ! 1)" "\<not> notesOn2 (chans one_note ! 1)"
    "\<forall>j<1. notesOn1 (chans one_note ! j) \<or> notesOn2 (chans one_note ! j)"
    "\<forall>j<1. \<not> (notesOn1 (chans one_note ! j) \<and> notesOn2 (chans one_note ! j) \<and> notesOn0 (chans one_note ! j) = 64)"
    by (simp_all add: one_note_eq idle_chan_def)
  have m: "minVel one_note = 50" by (simp add: one_note_eq main_init_def)
  show ?thesis
    using note_on_first_idle [OF h, of 20] h(3,4) m by simp
qed



text \<open>
  C6. With the sustain flag set, a note-off for \<open>n\<close> that finds channel \<open>i\<close> (the
  first channel sounding \<open>n\<close>) clears the should-be-on flag of that channel and
  nothing else.  However many ticks follow, channel \<open>i\<close> keeps its note and its
  is-on flag, and no key-off for it is sent.  Once the sustain flag is clear, the next
  tick sends exactly one key-off for channel \<open>i\<close>, clears its note number and its
  is-on flag.
\<close>

theorem sustain_defers_key_off:
  assumes "length (chans s) = 6" and "i < 6" and "sustain s"
    and "notesOn1 (chans s ! i)" and "notesOn2 (chans s ! i)" and "notesOn0 (chans s ! i) = n"
    and "\<forall>j<i. \<not> (notesOn1 (chans s ! j) \<and> notesOn2 (chans s ! j) \<and> notesOn0 (chans s ! j) = n)"
  shows "note_fn n v False s = s\<lparr>chans := (chans s)[i := (chans s ! i)\<lparr>notesOn1 := False\<rparr>]\<rparr> \<and>
    (\<forall>k. chans ((TIMER1_OVF_vect ^^ k) (note_fn n v False s)) ! i = (chans s ! i)\<lparr>notesOn1 := False\<rparr> \<and>
         (0, 0x28, chan ! i) \<notin>
           set (drop (length (spi s)) (spi ((TIMER1_OVF_vect ^^ k) (note_fn n v False s))))) \<and>
    (\<forall>k. count_list
           (drop (length (spi ((TIMER1_OVF_vect ^^ k) (note_fn n v False s))))
              (spi (TIMER1_OVF_vect (((TIMER1_OVF_vect ^^ k) (note_fn n v False s))\<lparr>sustain := False\<rparr>))))
           (0, 0x28, chan ! i) = 1 \<and>
         chans (TIMER1_OVF_vect (((TIMER1_OVF_vect ^^ k) (note_fn n v False s))\<lparr>sustain := False\<rparr>)) ! i
           = (chans s ! i)\<lparr>notesOn0 := 0, notesOn1 := False, notesOn2 := False\<rparr>)"
proof -
  let ?s1 = "note_fn n v False s"
  have off: "?s1 = s\<lparr>chans := (chans s)[i := (chans s ! i)\<lparr>notesOn1 := False\<rparr>]\<rparr>"
    using assms by (intro note_off_clears) auto
  have s1: "length (chans ?s1) = 6" "sustain ?s1" "spi ?s1 = spi s"
    "chans ?s1 ! i = (chans s ! i)\<lparr>notesOn1 := False\<rparr>"
    "\<not> notesOn1 (chans ?s1 ! i)" "notesOn2 (chans ?s1 ! i)"
    using assms(1-5) by (simp_all add: off)
  have held: "chans ((TIMER1_OVF_vect ^^ k) ?s1) ! i = chans ?s1 ! i \<and>
         sustain ((TIMER1_OVF_vect ^^ k) ?s1) \<and>
         length (chans ((TIMER1_OVF_vect ^^ k) ?s1)) = 6 \<and>
         (\<exists>ws. spi ((TIMER1_OVF_vect ^^ k) ?s1) = spi ?s1 @ ws \<and> (0, 0x28, chan ! i) \<notin> set ws)" for k
    by (rule ticks_held [OF s1(1) assms(2) s1(2) s1(5) s1(6)])
  have a: "chans ((TIMER1_OVF_vect ^^ k) ?s1) ! i = (chans s ! i)\<lparr>notesOn1 := False\<rparr> \<and>
         (0, 0x28, chan ! i) \<notin> set (drop (length (spi s)) (spi ((TIMER1_OVF_vect ^^ k) ?s1)))" for k
  proof -
    from held [of k] obtain ws where
      "spi ((TIMER1_OVF_vect ^^ k) ?s1) = spi s @ ws" "(0, 0x28, chan ! i) \<notin> set ws"
      using s1(3) by auto
    then show ?thesis using held [of k] s1(4) by simp
  qed
  have b: "count_list
           (drop (length (spi ((TIMER1_OVF_vect ^^ k) ?s1)))
              (spi (TIMER1_OVF_vect (((TIMER1_OVF_vect ^^ k) ?s1)\<lparr>sustain := False\<rparr>))))
           (0, 0x28, chan ! i) = 1 \<and>
         chans (TIMER1_OVF_vect (((TIMER1_OVF_vect ^^ k) ?s1)\<lparr>sustain := False\<rparr>)) ! i
           = (chans s ! i)\<lparr>notesOn0 := 0, notesOn1 := False, notesOn2 := False\<rparr>" for k
  proof -
    let ?t = "((TIMER1_OVF_vect ^^ k) ?s1)\<lparr>sustain := False\<rparr>"
    have t: "length (chans ?t) = 6" "\<not> sustain ?t"
      "\<not> notesOn1 (chans ?t ! i)" "notesOn2 (chans ?t ! i)"
      "chans ?t ! i = (chans s ! i)\<lparr>notesOn1 := False\<rparr>"
      using held [of k] s1(4-6) by simp_all
    show ?thesis
      using tick_releases [OF t(1) assms(2) t(2) t(3) t(4)] t(5) by simp
  qed
  show ?thesis using off a b by blast
qed

theorem sustain_defers_key_off_witness:
  "sustain pedal_note \<and> notesOn1 (chans pedal_note ! 0) \<and> notesOn2 (chans pedal_note ! 0) \<and>
   notesOn0 (chans pedal_note ! 0) = 60 \<and>
   note_fn 60 0 False pedal_note
     = pedal_note\<lparr>chans := (chans pedal_note)[0 := (chans pedal_note ! 0)\<lparr>notesOn1 := False\<rparr>]\<rparr> \<and>
   notesOn2 (chans ((TIMER1_OVF_vect ^^ 3) (note_fn 60 0 False pedal_note)) ! 0) \<and>
   (0, 0x28, 0) \<notin> set (drop (length (spi pedal_note)) (spi ((TIMER1_OVF_vect ^^ 3) (note_fn 60 0 False pedal_note)))) \<and>
   count_list
     (drop (length (spi ((TIMER1_OVF_vect ^^ 3) (note_fn 60 0 False pedal_note))))
        (spi (TIMER1_OVF_vect (((TIMER1_OVF_vect ^^ 3) (note_fn 60 0 False pedal_note))\<lparr>sustain := False\<rparr>))))
     (0, 0x28, 0) = 1 \<and>
   \<not> notesOn2 (chans (TIMER1_OVF_vect (((TIMER1_OVF_vect ^^ 3) (note_fn 60 0 False pedal_note))\<lparr>sustain := False\<rparr>)) ! 0)"
proof -
  have h: "length (chans pedal_note) = 6" "(0::nat) < 6" "sustain pedal_note"
    "notesOn1 (chans pedal_note ! 0)" "notesOn2 (chans pedal_note ! 0)"
    "notesOn0 (chans pedal_note ! 0) = 60"
    "\<forall>j<0. \<not> (notesOn1 (chans pedal_note ! j) \<and> notesOn2 (chans pedal_note ! j) \<and> notesOn0 (chans pedal_note ! j) = 60)"
    by (simp_all add: pedal_note_def one_note_eq)
  note t = sustain_defers_key_off [OF h, of 0]
  have c: "chan ! 0 = 0" by (simp add: chan_def)
  from t have t1: "note_fn 60 0 False pedal_note
     = pedal_note\<lparr>chans := (chans pedal_note)[0 := (chans pedal_note ! 0)\<lparr>notesOn1 := False\<rparr>]\<rparr>"
    by blast
  from t have t2: "chans ((TIMER1_OVF_vect ^^ 3) (note_fn 60 0 False pedal_note)) ! 0 = (chans pedal_note ! 0)\<lparr>notesOn1 := False\<rparr> \<and>
         (0, 0x28, chan ! 0) \<notin>
           set (drop (length (spi pedal_note)) (spi ((TIMER1_OVF_vect ^^ 3) (note_fn 60 0 False pedal_note))))"
    by blast
  from t have t3: "count_list
           (drop (length (spi ((TIMER1_OVF_vect ^^ 3) (note_fn 60 0 False pedal_note))))
              (spi (TIMER1_OVF_vect (((TIMER1_OVF_vect ^^ 3) (note_fn 60 0 False pedal_note))\<lparr>sustain := False\<rparr>))))
           (0, 0x28, chan ! 0) = 1 \<and>
         chans (TIMER1_OVF_vect (((TIMER1_OVF_vect ^^ 3) (note_fn 60 0 False pedal_note))\<lparr>sustain := False\<rparr>)) ! 0
           = (chans pedal_note ! 0)\<lparr>notesOn0 := 0, notesOn1 := False, notesOn2 := False\<rparr>"
    by blast
  show ?thesis
    using h(3-6) t1 t2 t3 by (simp add: c)
qed

subsection \<open>The dispatch of a recognised controller message\<close>

lemma rx_store_fields:
  "spi (rx_store b s) = spi s" "chans (rx_store b s) = chans s"
  "lfoFreq (rx_store b s) = lfoFreq s" "sustain (rx_store b s) = sustain s"
  by (simp_all add: rx_store_def Let_def)

lemma wheel_pending_eq:
  "wheel_pending = main_init\<lparr>lfoFreq := 3, midiBuf := (\<lambda>_. 0)(0 := 0xB0, 1 := 1), midiIndex := 2\<rparr>"
  by (simp add: wheel_pending_def USART_RX_vect_def rx_store_def rx_is3_def rx_is2_def midi2_def
      rx_status_def main_init_def minMaxValue_def Let_def)

lemma pedal_pending_eq:
  "pedal_pending = one_note\<lparr>midiBuf := (\<lambda>_. 0)(0 := 0xB0, 1 := 64), midiIndex := 2\<rparr>"
  by (simp add: pedal_pending_def one_note_eq USART_RX_vect_def rx_store_def rx_is3_def rx_is2_def midi2_def
      rx_status_def main_init_def minMaxValue_def Let_def)

text \<open>
  A controller message that the handler recognises (its three-byte test holds after the
  byte is stored, the status nibble is \<open>0xB0\<close>) for controller 1 with data \<open>d\<close> sends
  exactly one write to the LFO register \<open>0x22\<close>: \<open>0x08 + d / 18\<close> when \<open>d\<close> is not
  0, and the value of the stored LFO frequency (0 when it is off, else
  \<open>0x08 + lfoFreq - 1\<close>) when \<open>d\<close> is 0.  Beyond storing the byte in the buffer
  nothing else changes; \<open>lfoFreq\<close> is as before.
\<close>

lemma mod_wheel_dispatch:
  assumes "rx_is3 (rx_store b s)" and "rx_status (rx_store b s) = 0xB0"
    and "rx_data1 (rx_store b s) = 1" and "rx_data2 (rx_store b s) = d"
  shows "USART_RX_vect b s = (rx_store b s)
           \<lparr>spi := spi s @
              [(0, 0x22, if d = 0 then (if lfoFreq s = 0 then 0 else word_of_int (0x08 + lfoFreq s - 1))
                         else word_of_int (0x08 + d sdiv 18))]\<rparr> \<and>
         lfoFreq (USART_RX_vect b s) = lfoFreq s"
  using assms
  by (simp add: USART_RX_vect_def midi3_def controller_def sendreg_def rx_store_fields Let_def)

lemma mod_wheel_dispatch_example:
  "spi (USART_RX_vect 64 wheel_pending) = [(0, 0x22, 11)] \<and>
   lfoFreq (USART_RX_vect 64 wheel_pending) = 3 \<and>
   spi (USART_RX_vect 0 wheel_pending) = [(0, 0x22, 10)] \<and>
   lfoFreq (USART_RX_vect 0 wheel_pending) = 3"
proof -
  have a: "rx_store 64 wheel_pending
      = main_init\<lparr>lfoFreq := 3, midiBuf := (\<lambda>_. 0)(0 := 0xB0, 1 := 1, 2 := 64), midiIndex := 3\<rparr>"
    by (simp add: wheel_pending_eq rx_store_def main_init_def minMaxValue_def Let_def)
  have b: "rx_store 0 wheel_pending
      = main_init\<lparr>lfoFreq := 3, midiBuf := (\<lambda>_. 0)(0 := 0xB0, 1 := 1, 2 := 0), midiIndex := 3\<rparr>"
    by (simp add: wheel_pending_eq rx_store_def main_init_def minMaxValue_def Let_def)
  have ha: "rx_is3 (rx_store 64 wheel_pending)" "rx_status (rx_store 64 wheel_pending) = 0xB0"
    "rx_data1 (rx_store 64 wheel_pending) = 1" "rx_data2 (rx_store 64 wheel_pending) = 64"
    unfolding a by (simp_all add: rx_is3_def rx_status_def rx_data1_def rx_data2_def main_init_def)
  have hb: "rx_is3 (rx_store 0 wheel_pending)" "rx_status (rx_store 0 wheel_pending) = 0xB0"
    "rx_data1 (rx_store 0 wheel_pending) = 1" "rx_data2 (rx_store 0 wheel_pending) = 0"
    unfolding b by (simp_all add: rx_is3_def rx_status_def rx_data1_def rx_data2_def main_init_def)
  have l: "lfoFreq wheel_pending = 3" "spi wheel_pending = []"
    by (simp_all add: wheel_pending_eq main_init_def)
  show ?thesis
    using mod_wheel_dispatch [OF ha] mod_wheel_dispatch [OF hb] l
    by (simp add: signed_divide_int_def rx_store_fields)
qed

text \<open>
  A controller message that the handler recognises, for controller 64 with data \<open>d\<close>,
  sets the sustain flag when \<open>d\<close> is 0 and clears it when \<open>d\<close> is not 0.  It sends nothing and leaves
  the channels as they are.
\<close>

lemma sustain_dispatch:
  assumes "rx_is3 (rx_store b s)" and "rx_status (rx_store b s) = 0xB0"
    and "rx_data1 (rx_store b s) = 64" and "rx_data2 (rx_store b s) = d"
  shows "USART_RX_vect b s = (rx_store b s)\<lparr>sustain := (d = 0)\<rparr> \<and>
         sustain (USART_RX_vect b s) = (d = 0) \<and>
         spi (USART_RX_vect b s) = spi s \<and>
         chans (USART_RX_vect b s) = chans s"
  using assms
  by (simp add: USART_RX_vect_def midi3_def controller_def rx_store_fields Let_def)

lemma sustain_dispatch_example:
  "sustain (USART_RX_vect 0 pedal_pending) \<and>
   spi (USART_RX_vect 0 pedal_pending) = spi pedal_pending \<and>
   chans (USART_RX_vect 0 pedal_pending) = chans pedal_pending \<and>
   \<not> sustain (USART_RX_vect 127 (pedal_pending\<lparr>sustain := True\<rparr>)) \<and>
   spi (USART_RX_vect 127 (pedal_pending\<lparr>sustain := True\<rparr>)) = spi pedal_pending"
proof -
  let ?p = "pedal_pending\<lparr>sustain := True\<rparr>"
  have a: "rx_store 0 pedal_pending
      = one_note\<lparr>midiBuf := (\<lambda>_. 0)(0 := 0xB0, 1 := 64, 2 := 0), midiIndex := 3\<rparr>"
    by (simp add: pedal_pending_eq one_note_eq rx_store_def main_init_def minMaxValue_def Let_def)
  have b: "rx_store 127 ?p
      = one_note\<lparr>sustain := True, midiBuf := (\<lambda>_. 0)(0 := 0xB0, 1 := 64, 2 := 127), midiIndex := 3\<rparr>"
    by (simp add: pedal_pending_eq one_note_eq rx_store_def main_init_def minMaxValue_def Let_def)
  have ha: "rx_is3 (rx_store 0 pedal_pending)" "rx_status (rx_store 0 pedal_pending) = 0xB0"
    "rx_data1 (rx_store 0 pedal_pending) = 64" "rx_data2 (rx_store 0 pedal_pending) = 0"
    unfolding a by (simp_all add: rx_is3_def rx_status_def rx_data1_def rx_data2_def one_note_eq main_init_def)
  have hb: "rx_is3 (rx_store 127 ?p)" "rx_status (rx_store 127 ?p) = 0xB0"
    "rx_data1 (rx_store 127 ?p) = 64" "rx_data2 (rx_store 127 ?p) = 127"
    unfolding b by (simp_all add: rx_is3_def rx_status_def rx_data1_def rx_data2_def one_note_eq main_init_def)
  show ?thesis
    using sustain_dispatch [OF ha] sustain_dispatch [OF hb] by (simp add: rx_store_fields)
qed

subsection \<open>The framing of controller messages\<close>

text \<open>
  The two lemmas above take a message that the handler has recognised: its three-byte
  test holds once the last byte is stored.  The lemmas below say when that is so.  Let the status byte of a controller message be stored at index
  \<open>k\<close> of the buffer.  For every \<open>k\<close> but 125 the third byte is dispatched with the
  two data bytes; for \<open>k = 125\<close> the index wraps to 0 with the third byte, none of the
  three alternatives of the test holds, and the message is only stored.
\<close>

lemma data_byte_no_status:
  assumes "uint d < 0x80"
  shows "\<not> (uint (d :: u8) AND 0xF0 \<ge> 0x80)" and "uint d < 0xF8"
proof -
  have "uint d AND 0xF0 \<le> uint d" by (rule AND_upper1) simp
  then show "\<not> (uint d AND 0xF0 \<ge> 0x80)" using assms by linarith
  show "uint d < 0xF8" using assms by simp
qed


lemma idx_uint:
  assumes "0 \<le> k" and "k \<le> 127"
  shows "uint (word_of_int k :: u8) = k"
  using assms by (simp add: uint_word_of_int)

lemma idx_unat:
  assumes "0 \<le> k" and "k \<le> 127"
  shows "unat (word_of_int k :: u8) = nat k"
  using idx_uint [OF assms] by (simp add: unat_eq_nat_uint)

lemma idx_eq:
  assumes "0 \<le> k" and "k \<le> 127" and "0 \<le> c" and "c \<le> 127"
  shows "(word_of_int k :: u8) = word_of_int c \<longleftrightarrow> k = c"
proof
  assume "(word_of_int k :: u8) = word_of_int c"
  then have "uint (word_of_int k :: u8) = uint (word_of_int c :: u8)" by simp
  then show "k = c" using idx_uint assms by simp
next
  assume "k = c" then show "(word_of_int k :: u8) = word_of_int c" by simp
qed

lemma idx_not_wrap:
  assumes "0 \<le> k" and "k \<le> 125"
  shows "(word_of_int k :: u8) \<noteq> 127" and "(word_of_int k :: u8) \<noteq> 126"
  using idx_eq [of k 127] idx_eq [of k 126] assms by simp_all

lemma rx_store_at:
  assumes "midiIndex s = k" and "0 \<le> k" and "k \<le> 127" and "uint b < 0xF8"
  shows "rx_store b s = s\<lparr>midiBuf := (midiBuf s)(nat k := uint b),
      msgStart := (if uint b AND 0xF0 \<ge> 0x80 then word_of_int k else msgStart s),
      midiIndex := (if k = 127 then 0 else k + 1)\<rparr>"
  using assms by (simp add: rx_store_def minMaxValue_def Let_def)

lemma rx_three:
  assumes k: "midiIndex s = k" "0 \<le> k" "k \<le> 127"
    and st: "uint st < 0xF8" "uint st AND 0xF0 = 0xB0"
    and d: "uint d1 < 0x80" "uint d2 < 0x80"
  shows "rx_store st s = s\<lparr>midiBuf := (midiBuf s)(nat k := uint st), msgStart := word_of_int k,
      midiIndex := (if k = 127 then 0 else k + 1)\<rparr>"
    and "rx_store d1 (rx_store st s) = s\<lparr>midiBuf := (midiBuf s)(nat k := uint st,
        nat (if k = 127 then 0 else k + 1) := uint d1), msgStart := word_of_int k,
      midiIndex := (if k = 127 then 1 else if k = 126 then 0 else k + 2)\<rparr>"
    and "rx_store d2 (rx_store d1 (rx_store st s)) = s\<lparr>midiBuf := (midiBuf s)(nat k := uint st,
        nat (if k = 127 then 0 else k + 1) := uint d1,
        nat (if k = 127 then 1 else if k = 126 then 0 else k + 2) := uint d2), msgStart := word_of_int k,
      midiIndex := (if k = 127 then 2 else if k = 126 then 1 else if k = 125 then 0 else k + 3)\<rparr>"
proof -
  note dd = data_byte_no_status [OF d(1)] data_byte_no_status [OF d(2)]
  let ?s1 = "rx_store st s"
  let ?s2 = "rx_store d1 ?s1"
  show s1: "?s1 = s\<lparr>midiBuf := (midiBuf s)(nat k := uint st), msgStart := word_of_int k,
      midiIndex := (if k = 127 then 0 else k + 1)\<rparr>"
    using rx_store_at [OF k st(1)] st(2) by simp
  have i1: "midiIndex ?s1 = (if k = 127 then 0 else k + 1)" by (simp add: s1)
  have r1: "0 \<le> (if k = 127 then 0 else k + 1)" "(if k = 127 then 0 else k + 1) \<le> 127"
    using k by auto
  show s2: "?s2 = s\<lparr>midiBuf := (midiBuf s)(nat k := uint st,
        nat (if k = 127 then 0 else k + 1) := uint d1), msgStart := word_of_int k,
      midiIndex := (if k = 127 then 1 else if k = 126 then 0 else k + 2)\<rparr>"
    using rx_store_at [OF i1 r1 dd(2)] dd(1) k by (simp add: s1)
  have i2: "midiIndex ?s2 = (if k = 127 then 1 else if k = 126 then 0 else k + 2)" by (simp add: s2)
  have r2: "0 \<le> (if k = 127 then 1 else if k = 126 then 0 else k + 2)"
    "(if k = 127 then 1 else if k = 126 then 0 else k + 2) \<le> 127"
    using k by auto
  show "rx_store d2 ?s2 = s\<lparr>midiBuf := (midiBuf s)(nat k := uint st,
        nat (if k = 127 then 0 else k + 1) := uint d1,
        nat (if k = 127 then 1 else if k = 126 then 0 else k + 2) := uint d2), msgStart := word_of_int k,
      midiIndex := (if k = 127 then 2 else if k = 126 then 1 else if k = 125 then 0 else k + 3)\<rparr>"
    using rx_store_at [OF i2 r2 dd(4)] dd(3) k by (simp add: s2)
qed


lemma controller_bytes:
  assumes k: "midiIndex s = k" "0 \<le> k" "k \<le> 127"
    and st: "uint st < 0xF8" "uint st AND 0xF0 = 0xB0"
    and d: "uint d1 < 0x80" "uint d2 < 0x80"
  shows "USART_RX_vect d1 (USART_RX_vect st s) = rx_store d1 (rx_store st s)"
    and "k \<noteq> 125 \<Longrightarrow>
         rx_is3 (rx_store d2 (rx_store d1 (rx_store st s))) \<and>
         rx_status (rx_store d2 (rx_store d1 (rx_store st s))) = 0xB0 \<and>
         rx_data1 (rx_store d2 (rx_store d1 (rx_store st s))) = uint d1 \<and>
         rx_data2 (rx_store d2 (rx_store d1 (rx_store st s))) = uint d2"
    and "k = 125 \<Longrightarrow>
         USART_RX_vect d2 (rx_store d1 (rx_store st s)) = rx_store d2 (rx_store d1 (rx_store st s))"
proof -
  note s = rx_three [OF assms]
  note ix = idx_uint [OF k(2,3)] idx_unat [OF k(2,3)]
  consider (low) "k \<le> 124" | (a) "k = 125" | (b) "k = 126" | (c) "k = 127"
    using k(3) by linarith
  then have "USART_RX_vect d1 (USART_RX_vect st s) = rx_store d1 (rx_store st s) \<and>
         (k \<noteq> 125 \<longrightarrow>
         rx_is3 (rx_store d2 (rx_store d1 (rx_store st s))) \<and>
         rx_status (rx_store d2 (rx_store d1 (rx_store st s))) = 0xB0 \<and>
         rx_data1 (rx_store d2 (rx_store d1 (rx_store st s))) = uint d1 \<and>
         rx_data2 (rx_store d2 (rx_store d1 (rx_store st s))) = uint d2) \<and>
         (k = 125 \<longrightarrow>
         USART_RX_vect d2 (rx_store d1 (rx_store st s)) = rx_store d2 (rx_store d1 (rx_store st s)))"
  proof cases
    case low
    then have le: "k \<le> 125" by simp
    note nw = idx_not_wrap [OF k(2) le]
    have n: "nat (k + 1) = nat k + 1" "nat (k + 2) = nat k + 2" using k(2) by simp_all
    have u1: "USART_RX_vect st s = rx_store st s"
      using low by (simp add: USART_RX_vect_def Let_def s(1) rx_is3_def rx_is2_def ix nw)
    have st2: "rx_status (rx_store d1 (rx_store st s)) = 0xB0"
      using low st(2) by (simp add: s(2) rx_status_def ix n)
    have u2: "USART_RX_vect d1 (rx_store st s) = rx_store d1 (rx_store st s)"
      using low st2 by (simp add: USART_RX_vect_def Let_def midi2_def) (simp add: s(2) rx_is3_def ix nw)
    have r: "rx_is3 (rx_store d2 (rx_store d1 (rx_store st s)))"
      "rx_status (rx_store d2 (rx_store d1 (rx_store st s))) = 0xB0"
      "rx_data1 (rx_store d2 (rx_store d1 (rx_store st s))) = uint d1"
      "rx_data2 (rx_store d2 (rx_store d1 (rx_store st s))) = uint d2"
      using low st(2) by (simp_all add: s(3) rx_is3_def rx_status_def rx_data1_def rx_data2_def ix nw n)
    show ?thesis using low u1 u2 r by simp
  next
    case a
    have u1: "USART_RX_vect st s = rx_store st s"
      using a by (simp add: USART_RX_vect_def Let_def s(1) rx_is3_def rx_is2_def)
    have st2: "rx_status (rx_store d1 (rx_store st s)) = 0xB0"
      using a st(2) by (simp add: s(2) rx_status_def)
    have u2: "USART_RX_vect d1 (rx_store st s) = rx_store d1 (rx_store st s)"
      using a st2 by (simp add: USART_RX_vect_def Let_def midi2_def) (simp add: s(2) rx_is3_def)
    have u3: "USART_RX_vect d2 (rx_store d1 (rx_store st s)) = rx_store d2 (rx_store d1 (rx_store st s))"
      using a by (simp add: USART_RX_vect_def Let_def s(3) rx_is3_def rx_is2_def)
    show ?thesis using a u1 u2 u3 by simp
  next
    case b
    have u1: "USART_RX_vect st s = rx_store st s"
      using b by (simp add: USART_RX_vect_def Let_def s(1) rx_is3_def rx_is2_def)
    have st2: "rx_status (rx_store d1 (rx_store st s)) = 0xB0"
      using b st(2) by (simp add: s(2) rx_status_def)
    have u2: "USART_RX_vect d1 (rx_store st s) = rx_store d1 (rx_store st s)"
      using b st2 by (simp add: USART_RX_vect_def Let_def midi2_def) (simp add: s(2) rx_is3_def)
    have r: "rx_is3 (rx_store d2 (rx_store d1 (rx_store st s)))"
      "rx_status (rx_store d2 (rx_store d1 (rx_store st s))) = 0xB0"
      "rx_data1 (rx_store d2 (rx_store d1 (rx_store st s))) = uint d1"
      "rx_data2 (rx_store d2 (rx_store d1 (rx_store st s))) = uint d2"
      using b st(2) by (simp_all add: s(3) rx_is3_def rx_status_def rx_data1_def rx_data2_def)
    show ?thesis using b u1 u2 r by simp
  next
    case c
    have u1: "USART_RX_vect st s = rx_store st s"
      using c by (simp add: USART_RX_vect_def Let_def s(1) rx_is3_def rx_is2_def)
    have st2: "rx_status (rx_store d1 (rx_store st s)) = 0xB0"
      using c st(2) by (simp add: s(2) rx_status_def)
    have u2: "USART_RX_vect d1 (rx_store st s) = rx_store d1 (rx_store st s)"
      using c st2 by (simp add: USART_RX_vect_def Let_def midi2_def) (simp add: s(2) rx_is3_def)
    have r: "rx_is3 (rx_store d2 (rx_store d1 (rx_store st s)))"
      "rx_status (rx_store d2 (rx_store d1 (rx_store st s))) = 0xB0"
      "rx_data1 (rx_store d2 (rx_store d1 (rx_store st s))) = uint d1"
      "rx_data2 (rx_store d2 (rx_store d1 (rx_store st s))) = uint d2"
      using c st(2) by (simp_all add: s(3) rx_is3_def rx_status_def rx_data1_def rx_data2_def)
    show ?thesis using c u1 u2 r by simp
  qed
  then show "USART_RX_vect d1 (USART_RX_vect st s) = rx_store d1 (rx_store st s)"
    and "k \<noteq> 125 \<Longrightarrow>
         rx_is3 (rx_store d2 (rx_store d1 (rx_store st s))) \<and>
         rx_status (rx_store d2 (rx_store d1 (rx_store st s))) = 0xB0 \<and>
         rx_data1 (rx_store d2 (rx_store d1 (rx_store st s))) = uint d1 \<and>
         rx_data2 (rx_store d2 (rx_store d1 (rx_store st s))) = uint d2"
    and "k = 125 \<Longrightarrow>
         USART_RX_vect d2 (rx_store d1 (rx_store st s)) = rx_store d2 (rx_store d1 (rx_store st s))"
    by blast+
qed

lemma controller_message:
  assumes k: "midiIndex s = k" "0 \<le> k" "k \<le> 127"
    and st: "uint st < 0xF8" "uint st AND 0xF0 = 0xB0"
    and d: "uint d1 < 0x80" "uint d2 < 0x80"
  shows "USART_RX_vect d2 (USART_RX_vect d1 (USART_RX_vect st s)) =
     (if k = 125 then rx_store d2 (rx_store d1 (rx_store st s))
      else controller (uint d1) (uint d2) (rx_store d2 (rx_store d1 (rx_store st s))))"
proof (cases "k = 125")
  case True
  then show ?thesis using controller_bytes(1,3) [OF assms] by simp
next
  case False
  then show ?thesis
    using controller_bytes(1) [OF assms] controller_bytes(2) [OF assms False]
    by (simp add: USART_RX_vect_def [of d2] Let_def midi3_def)
qed

subsection \<open>writeToYM, changeAllParams and changeValue\<close>

lemma writeToYM_i_eq:
  "writeToYM_i j r d is s = s\<lparr>spi := spi s @ map (\<lambda>i. (j, r + of_nat i, d)) is\<rparr>"
  by (induction "is" arbitrary: s) (simp_all add: sendreg_def)

lemma writeToYM_j_eq:
  "writeToYM_j r d js s = s\<lparr>spi := spi s @ concat (map (\<lambda>j. map (\<lambda>i. (of_nat j, r + of_nat i, d)) [0..<3]) js)\<rparr>"
  by (induction js arbitrary: s) (simp_all add: writeToYM_i_eq)

lemma writeToYM_eq:
  "writeToYM op' val1 val2 baseReg bitShift1 bitShift2 multiOp multiChannel options subValue1 subValue2 s =
     s\<lparr>spi := spi s @ writeToYM_out op' val1 val2 baseReg bitShift1 bitShift2 multiOp multiChannel options subValue1 subValue2\<rparr>"
  by (simp add: writeToYM_def writeToYM_out_def writeToYM_j_eq sendreg_def Let_def)

lemma get_field_spi [simp]: "get_field G (s\<lparr>spi := x\<rparr>) = get_field G s"
  by (cases G) simp_all

lemma changeValue_field:
  assumes "sel_ok s" and "value_sel s = F" and "F \<noteq> PatchNum"
  shows "changeValue s =
           (set_field F (minMaxValue (get_field F s) (fst (bounds F)) (snd (bounds F))) s)
             \<lparr>spi := spi (changeValue s)\<rparr>"
proof (cases F)
  case PatchNum
  then show ?thesis using assms by simp
next
  case VelSens
  then show ?thesis using assms by (simp add: changeValue_def Let_def)
next
  case MinVel
  then show ?thesis using assms by (simp add: changeValue_def Let_def)
next
  case Polyphony
  then show ?thesis using assms by (simp add: changeValue_def Let_def)
next
  case Algorithm
  then show ?thesis using assms by (simp add: changeValue_def Let_def writeToYM_eq)
next
  case Feedback
  then show ?thesis using assms by (simp add: changeValue_def Let_def writeToYM_eq)
next
  case (Multiple k)
  then show ?thesis using assms by (simp add: sel_ok_def changeValue_def Let_def writeToYM_eq)
next
  case (Detune k)
  then show ?thesis using assms by (simp add: sel_ok_def changeValue_def Let_def writeToYM_eq)
next
  case (TotalLvl k)
  then show ?thesis using assms by (simp add: sel_ok_def changeValue_def Let_def writeToYM_eq)
next
  case (Attack k)
  then show ?thesis using assms by (simp add: sel_ok_def changeValue_def Let_def writeToYM_eq)
next
  case (Decay k)
  then show ?thesis using assms by (simp add: sel_ok_def changeValue_def Let_def writeToYM_eq)
next
  case (SusLvl k)
  then show ?thesis using assms by (simp add: sel_ok_def changeValue_def Let_def writeToYM_eq)
next
  case (SusRate k)
  then show ?thesis using assms by (simp add: sel_ok_def changeValue_def Let_def writeToYM_eq)
next
  case (Release k)
  then show ?thesis using assms by (simp add: sel_ok_def changeValue_def Let_def writeToYM_eq)
next
  case (RateScl k)
  then show ?thesis using assms by (simp add: sel_ok_def changeValue_def Let_def writeToYM_eq)
next
  case (Ssgeg k)
  then show ?thesis using assms by (simp add: sel_ok_def changeValue_def Let_def writeToYM_eq)
next
  case LfoFreq
  then show ?thesis using assms by (simp add: changeValue_def Let_def writeToYM_eq)
next
  case Vibrato
  then show ?thesis using assms by (simp add: changeValue_def Let_def writeToYM_eq)
next
  case Tremolo
  then show ?thesis using assms by (simp add: changeValue_def Let_def writeToYM_eq)
next
  case (AmOn k)
  then show ?thesis using assms by (simp add: sel_ok_def changeValue_def Let_def writeToYM_eq)
qed

lemma changeAllParams_op_eq:
  "changeAllParams_op mult det tl' atk dcy sl sr rel rs eg am i s =
     s\<lparr>multiple := (multiple s)[i := mult ! i],
       detune := (detune s)[i := det ! i],
       totalLvl := (totalLvl s)[i := tl' ! i],
       attack := (attack s)[i := atk ! i],
       decay := (decay s)[i := dcy ! i],
       susLvl := (susLvl s)[i := sl ! i],
       susRate := (susRate s)[i := sr ! i],
       rateScl := (rateScl s)[i := rs ! i],
       ssgeg := (ssgeg s)[i := eg ! i],
       amOn := (amOn s)[i := am ! i],
       spi := spi s @ changeAllParams_op_out mult det tl' atk dcy sl sr rel rs eg am i\<rparr>"
  by (simp add: changeAllParams_op_def changeAllParams_op_out_def writeToYM_eq Let_def)

lemma list4_overwrite:
  "length xs = 4 \<Longrightarrow> length ys = 4 \<Longrightarrow> xs[0 := ys ! 0, Suc 0 := ys ! Suc 0, 2 := ys ! 2, 3 := ys ! 3] = ys"
proof (rule nth_equalityI)
  show "length xs = 4 \<Longrightarrow> length ys = 4 \<Longrightarrow>
    length (xs[0 := ys ! 0, Suc 0 := ys ! Suc 0, 2 := ys ! 2, 3 := ys ! 3]) = length ys" by simp
  fix i
  assume a: "length xs = 4" "length ys = 4"
    and "i < length (xs[0 := ys ! 0, Suc 0 := ys ! Suc 0, 2 := ys ! 2, 3 := ys ! 3])"
  then have "i = 0 \<or> i = Suc 0 \<or> i = 2 \<or> i = 3" by auto
  then show "xs[0 := ys ! 0, Suc 0 := ys ! Suc 0, 2 := ys ! 2, 3 := ys ! 3] ! i = ys ! i"
    using a by auto
qed

lemma changeAllParams_eq:
  assumes "arrays_ok s"
    and "length mult = 4" "length det = 4" "length tl' = 4" "length atk = 4" "length dcy = 4"
    and "length sl = 4" "length sr = 4" "length rs = 4" "length eg = 4" "length am = 4"
  shows "changeAllParams alg fb lfo vib trem mult det tl' atk dcy sl sr rel rs eg am s =
     s\<lparr>algorithm := alg, feedback := fb, lfoFreq := lfo, vibrato := vib, tremolo := trem,
       multiple := mult, detune := det, totalLvl := tl', attack := atk, decay := dcy,
       susLvl := sl, susRate := sr, rateScl := rs, ssgeg := eg, amOn := am,
       spi := spi s @ changeAllParams_out alg fb lfo vib trem mult det tl' atk dcy sl sr rel rs eg am\<rparr>"
  using assms
  by (simp add: changeAllParams_def changeAllParams_out_def upt4 changeAllParams_op_eq writeToYM_eq
        arrays_ok_def list4_overwrite Let_def)

subsection \<open>The store stays within its bounds\<close>

lemma store_ok_unfold:
  "store_ok s \<longleftrightarrow>
     within PatchNum s \<and> within VelSens s \<and> within MinVel s \<and> within Polyphony s \<and>
     within Algorithm s \<and> within Feedback s \<and> within LfoFreq s \<and> within Vibrato s \<and>
     within Tremolo s \<and>
     (\<forall>k<4. within (Multiple k) s \<and> within (Detune k) s \<and> within (TotalLvl k) s \<and>
        within (Attack k) s \<and> within (Decay k) s \<and> within (SusLvl k) s \<and> within (SusRate k) s \<and>
        within (Release k) s \<and> within (RateScl k) s \<and> within (Ssgeg k) s \<and> within (AmOn k) s)"
proof -
  have q: "(\<forall>k<4. P k) \<longleftrightarrow> P 0 \<and> P (Suc 0) \<and> P 2 \<and> P (3::nat)" for P
  proof
    assume "\<forall>k<4. P k" then show "P 0 \<and> P (Suc 0) \<and> P 2 \<and> P 3" by simp
  next
    assume a: "P 0 \<and> P (Suc 0) \<and> P 2 \<and> P 3"
    show "\<forall>k<4. P k"
    proof (intro allI impI)
      fix k :: nat assume "k < 4"
      then have "k = 0 \<or> k = Suc 0 \<or> k = 2 \<or> k = 3" by arith
      then show "P k" using a by auto
    qed
  qed
  show ?thesis
    unfolding q by (simp add: store_ok_def all_fields_def upt4)
qed

lemma within_frame:
  "get_field F s' = get_field F s \<Longrightarrow> within F s' = within F s"
  by (simp add: within_def)

lemma changeAllParams_ok:
  assumes "arrays_ok s"
    and "params_ok alg fb lfo vib trem mult det tl' atk dcy sl sr rs eg am"
  shows "patch_loaded s (changeAllParams alg fb lfo vib trem mult det tl' atk dcy sl sr rel rs eg am s)"
proof -
  have e: "changeAllParams alg fb lfo vib trem mult det tl' atk dcy sl sr rel rs eg am s =
     s\<lparr>algorithm := alg, feedback := fb, lfoFreq := lfo, vibrato := vib, tremolo := trem,
       multiple := mult, detune := det, totalLvl := tl', attack := atk, decay := dcy,
       susLvl := sl, susRate := sr, rateScl := rs, ssgeg := eg, amOn := am,
       spi := spi s @ changeAllParams_out alg fb lfo vib trem mult det tl' atk dcy sl sr rel rs eg am\<rparr>"
    using assms by (intro changeAllParams_eq) (simp_all add: params_ok_def)
  show ?thesis
    unfolding e using assms
    by (simp add: patch_loaded_def params_ok_def arrays_ok_def store_ok_unfold within_def list_all_length)
qed

lemma preset_patch_ok:
  assumes "arrays_ok s"
  shows "patch_loaded s (preset s)"
proof -
  have same: "patch_loaded s s"
    using assms by (simp add: patch_loaded_def)
  note ok = changeAllParams_ok [OF assms]
  have br: "patch_loaded s (if c then a else b)"
    if "c \<Longrightarrow> patch_loaded s a" and "\<not> c \<Longrightarrow> patch_loaded s b" for c a b
    using that by simp
  show ?thesis
    unfolding preset_def
    by (intro br ok same) (simp_all add: params_ok_def)
qed

lemma bounds_ordered: "fst (bounds F) \<le> snd (bounds F)"
  by (cases F) simp_all

lemma minMaxValue_within:
  "mn \<le> mx \<Longrightarrow> mn \<le> minMaxValue v mn mx \<and> minMaxValue v mn mx \<le> mx"
  by (simp add: minMaxValue_def)

lemma minMaxValue_wraps:
  "mn \<le> mx \<Longrightarrow> minMaxValue (mx + 1) mn mx = mn"
  "mn \<le> mx \<Longrightarrow> minMaxValue (mn - 1) mn mx = mx"
  by (simp_all add: minMaxValue_def)

lemma store_ok_spi [simp]: "store_ok (s\<lparr>spi := x\<rparr>) = store_ok s"
  by (simp add: store_ok_def within_def)

lemma sel_ok_spi [simp]: "sel_ok (s\<lparr>spi := x\<rparr>) = sel_ok s"
  by (simp add: sel_ok_def arrays_ok_def)

lemma sel_ok_index:
  "sel_ok s \<Longrightarrow> field_op (value_sel s) = Some k \<Longrightarrow> k < 4"
  by (auto simp: sel_ok_def)


lemma set_field_sel:
  assumes "sel_ok s" and "value_sel s = F"
  shows "sel_ok (set_field F v s) \<and> value_sel (set_field F v s) = F \<and>
         get_field F (set_field F v s) = v \<and>
         set_field F w (set_field F v s) = set_field F w s"
proof -
  have ix: "field_op F = Some k \<Longrightarrow> k < 4" for k
    using sel_ok_index assms by blast
  have ar: "arrays_ok s" using assms(1) by (simp add: sel_ok_def)
  show ?thesis
    using assms(2) ix ar assms(1)
    by (cases F) (simp_all add: sel_ok_def arrays_ok_def)
qed


lemma set_field_store_ok:
  assumes "sel_ok s" and "value_sel s = F" and "store_ok s"
    and "fst (bounds F) \<le> v" and "v \<le> snd (bounds F)"
  shows "store_ok (set_field F v s)"
proof -
  have ix: "field_op F = Some k \<Longrightarrow> k < 4" for k
    using sel_ok_index assms by blast
  have ar: "arrays_ok s" using assms(1) by (simp add: sel_ok_def)
  show ?thesis
    using assms(3-5) ix ar
    by (cases F)
       (simp_all add: arrays_ok_def store_ok_unfold within_def nth_list_update all_conj_distrib)
qed


lemma turn_value_field:
  assumes "sel_ok s" and "value_sel s = F"
  shows "get_field F (turn_value clockwise s) =
           minMaxValue (if clockwise then get_field F s + 1 else get_field F s - 1)
             (fst (bounds F)) (snd (bounds F)) \<and>
         sel_ok (turn_value clockwise s) \<and>
         value_sel (turn_value clockwise s) = F \<and>
         (store_ok s \<longrightarrow> store_ok (turn_value clockwise s))"
proof -
  let ?v = "if clockwise then get_field F s + 1 else get_field F s - 1"
  let ?m = "minMaxValue ?v (fst (bounds F)) (snd (bounds F))"
  let ?s1 = "set_field F ?v s"
  have tv: "turn_value clockwise s = changeValue ?s1"
    using assms(2) by (simp add: turn_value_def)
  note s1 = set_field_sel [OF assms, of ?v]
  note sm = set_field_sel [OF assms, of ?m]
  note m = minMaxValue_within [OF bounds_ordered, of F ?v]
  show ?thesis
  proof (cases "F = PatchNum")
    case True
    let ?s2 = "s\<lparr>patchNum := minMaxValue ?v 0 20\<rparr>"
    have s2: "?s2 = set_field F ?m s" using True by simp
    have cv: "changeValue ?s1 = preset ?s2"
      using True assms(2) by (simp add: changeValue_def)
    have sel2: "sel_ok ?s2" using sm unfolding s2 by blast
    then have ar2: "arrays_ok ?s2" by (simp add: sel_ok_def)
    have st2: "store_ok ?s2" if "store_ok s"
      unfolding s2 using set_field_store_ok [OF assms that, of ?m] m by simp
    have pl: "patch_loaded ?s2 (preset ?s2)" by (rule preset_patch_ok [OF ar2])
    have a: "get_field F (preset ?s2) = ?m"
      using pl True by (simp add: patch_loaded_def)
    have b: "sel_ok (preset ?s2)" "value_sel (preset ?s2) = F"
      using pl sel2 assms(2) by (simp_all add: patch_loaded_def sel_ok_def)
    have c: "store_ok (preset ?s2)" if "store_ok s"
      using pl st2 [OF that] by (simp add: patch_loaded_def)
    show ?thesis using a b c by (simp add: tv cv)
  next
    case False
    have cv: "changeValue ?s1 = (set_field F ?m s)\<lparr>spi := spi (changeValue ?s1)\<rparr>"
      using changeValue_field [of ?s1 F] s1 False by simp
    have a: "get_field F (changeValue ?s1) = ?m"
      by (subst cv) (simp add: sm)
    have b: "sel_ok (changeValue ?s1)" "value_sel (changeValue ?s1) = F"
      by (subst cv, simp add: sm)+
    have c: "store_ok (changeValue ?s1)" if "store_ok s"
      by (subst cv) (simp add: set_field_store_ok [OF assms that] m)
    show ?thesis using a b c by (simp add: tv)
  qed
qed

lemma changeGroup_sel_ok:
  assumes "arrays_ok s" and "0 \<le> op s" and "op s < 4"
  shows "sel_ok (changeGroup s) \<and> 0 \<le> group (changeGroup s) \<and> group (changeGroup s) \<le> 3"
  using assms
  by (simp add: changeGroup_def Let_def minMaxValue_def sel_ok_def arrays_ok_def)

lemma changeCurrent_sel_ok:
  assumes "arrays_ok s" and "0 \<le> group s" and "group s \<le> 3"
  shows "sel_ok (changeCurrent s)"
proof -
  have g: "group s = 0 \<or> group s = 1 \<or> group s = 2 \<or> group s = 3"
    using assms(2,3) by arith
  have o: "0 \<le> minMaxValue (op s) 0 3 \<and> minMaxValue (op s) 0 3 < 4"
    by (simp add: minMaxValue_def)
  show ?thesis
    using assms(1) g o
    by (auto simp: changeCurrent_def Let_def sel_ok_def arrays_ok_def)
qed

lemma main_init_ok: "arrays_ok main_init" "store_ok main_init" "sel_ok main_init"
  by (simp_all add: main_init_def arrays_ok_def sel_ok_def store_ok_def all_fields_def within_def upt4)

lemma preset_main_init:
  "preset main_init = main_init
     \<lparr>algorithm := 7, feedback := 0, lfoFreq := 0, vibrato := 0, tremolo := 0,
      multiple := [2, 2, 2, 2], detune := [0, 0, 0, 0], totalLvl := [0, 0, 0, 127],
      attack := [0, 0, 0, 0], decay := [31, 31, 31, 31], susLvl := [15, 15, 15, 15],
      susRate := [31, 31, 31, 31], rateScl := [0, 0, 0, 0], ssgeg := [0, 0, 0, 0],
      amOn := [0, 0, 0, 0],
      spi := spi main_init @ changeAllParams_out 7 0 0 0 0
          [2, 2, 2, 2] [0, 0, 0, 0] [0, 0, 0, 127] [0, 0, 0, 0] [31, 31, 31, 31] [15, 15, 15, 15]
          [31, 31, 31, 31] [0, 0, 0, 0] [0, 0, 0, 0] [0, 0, 0, 0] [0, 0, 0, 0]\<rparr>"
proof -
  have pn: "patchNum main_init = 15" by (simp add: main_init_def)
  have "preset main_init = changeAllParams 7 0 0 0 0
          [2, 2, 2, 2] [0, 0, 0, 0] [0, 0, 0, 127] [0, 0, 0, 0] [31, 31, 31, 31] [15, 15, 15, 15]
          [31, 31, 31, 31] [0, 0, 0, 0] [0, 0, 0, 0] [0, 0, 0, 0] [0, 0, 0, 0] main_init"
    by (simp add: preset_def pn)
  then show ?thesis
    by (simp add: changeAllParams_eq [OF main_init_ok(1)])
qed

lemma get_field_nav [simp]:
  "get_field F (s\<lparr>group := g, current := c, value_sel := v\<rparr>) = get_field F s"
  by (cases F) simp_all

lemma startup_ok:
  "sel_ok startup \<and> store_ok startup \<and> value_sel startup = PatchNum \<and>
   patchNum startup = 15 \<and> release startup = [0, 0, 0, 0]"
proof -
  have pl: "patch_loaded main_init (preset main_init)"
    by (rule preset_patch_ok [OF main_init_ok(1)])
  have p: "arrays_ok (preset main_init)" "store_ok (preset main_init)"
    using pl main_init_ok(2) by (simp_all add: patch_loaded_def)
  have q: "op (preset main_init) = 0" "group (preset main_init) = 0"
    "patchNum (preset main_init) = 15" "release (preset main_init) = [0, 0, 0, 0]"
    by (simp_all add: preset_main_init) (simp_all add: main_init_def)
  have g: "changeGroup (preset main_init) = (preset main_init)\<lparr>group := 0, current := 0, value_sel := PatchNum\<rparr>"
    by (simp add: changeGroup_def q minMaxValue_def)
  show ?thesis
    unfolding startup_def g using p q
    by (simp add: sel_ok_def arrays_ok_def store_ok_def within_def)
qed

lemma turn_value_patch:
  assumes "sel_ok s" and "value_sel s = PatchNum"
  shows "turn_value clockwise s =
           preset (s\<lparr>patchNum := minMaxValue (if clockwise then patchNum s + 1 else patchNum s - 1) 0 20\<rparr>)"
  using assms by (simp add: turn_value_def changeValue_def)

lemma patch_at_step:
  assumes "patch_at n s"
  shows "patch_at (minMaxValue (n + 1) 0 20) (turn_value True s)"
proof -
  let ?s2 = "s\<lparr>patchNum := minMaxValue (n + 1) 0 20\<rparr>"
  have a: "sel_ok s" "value_sel s = PatchNum" "patchNum s = n" "release s = [0, 0, 0, 0]"
    using assms by (simp_all add: patch_at_def)
  have tv: "turn_value True s = preset ?s2"
    using turn_value_patch [OF a(1,2), of True] a(3) by simp
  have s2: "sel_ok ?s2" using a(1,2) by (simp add: sel_ok_def arrays_ok_def)
  then have "patch_loaded ?s2 (preset ?s2)"
    by (intro preset_patch_ok) (simp add: sel_ok_def)
  then show ?thesis
    using s2 a by (simp add: tv patch_at_def patch_loaded_def sel_ok_def)
qed

lemma last_patch_at: "patch_at 20 last_patch"
proof -
  have "patch_at 15 startup" using startup_ok by (simp add: patch_at_def)
  from patch_at_step [OF this] have "patch_at 16 (turn_value True startup)"
    by (simp add: minMaxValue_def)
  from patch_at_step [OF this] have "patch_at 17 (turn_value True (turn_value True startup))"
    by (simp add: minMaxValue_def)
  from patch_at_step [OF this] have "patch_at 18 (turn_value True (turn_value True (turn_value True startup)))"
    by (simp add: minMaxValue_def)
  from patch_at_step [OF this]
  have "patch_at 19 (turn_value True (turn_value True (turn_value True (turn_value True startup))))"
    by (simp add: minMaxValue_def)
  from patch_at_step [OF this] show ?thesis
    by (simp add: minMaxValue_def last_patch_def)
qed

lemma patch_index_wraps:
  assumes "sel_ok s" and "value_sel s = PatchNum" and "patchNum s < 0 \<or> 20 < patchNum s"
  shows "changeValue s = preset (s\<lparr>patchNum := (if patchNum s < 0 then 20 else 0)\<rparr>)"
  using assms by (auto simp: changeValue_def minMaxValue_def)

text \<open>
  C7. Let \<open>ym.value\<close> point to the field \<open>F\<close> with the documented bounds
  \<open>bounds F\<close>.  One detent clockwise when \<open>F\<close> holds its maximum leaves the
  minimum in \<open>F\<close>; one detent counterclockwise when \<open>F\<close> holds its minimum leaves
  the maximum; after a detent in either direction \<open>F\<close> is within its bounds, and if
  every field of the store was within its bounds before, every field is after (also
  when the detent loads a patch).
\<close>

theorem value_edit_wraps:
  assumes "sel_ok s" and "value_sel s = F"
  shows "(get_field F s = snd (bounds F) \<longrightarrow> get_field F (turn_value True s) = fst (bounds F)) \<and>
         (get_field F s = fst (bounds F) \<longrightarrow> get_field F (turn_value False s) = snd (bounds F)) \<and>
         within F (turn_value clockwise s) \<and>
         (store_ok s \<longrightarrow> store_ok (turn_value clockwise s))"
proof -
  note o = bounds_ordered [of F]
  have up: "get_field F (turn_value True s) = minMaxValue (get_field F s + 1) (fst (bounds F)) (snd (bounds F))"
    using turn_value_field [OF assms, of True] by simp
  have down: "get_field F (turn_value False s) = minMaxValue (get_field F s - 1) (fst (bounds F)) (snd (bounds F))"
    using turn_value_field [OF assms, of False] by simp
  have a: "get_field F (turn_value True s) = fst (bounds F)" if "get_field F s = snd (bounds F)"
    using up that minMaxValue_wraps(1) [OF o] by simp
  have b: "get_field F (turn_value False s) = snd (bounds F)" if "get_field F s = fst (bounds F)"
    using down that minMaxValue_wraps(2) [OF o] by simp
  have c: "within F (turn_value clockwise s)"
    using turn_value_field [OF assms, of clockwise] minMaxValue_within [OF o]
    by (simp add: within_def)
  have d: "store_ok s \<longrightarrow> store_ok (turn_value clockwise s)"
    using turn_value_field [OF assms, of clockwise] by blast
  show ?thesis using a b c d by blast
qed

theorem value_edit_wraps_witness:
  "sel_ok detune_max \<and> get_field (Detune 0) detune_max = 3 \<and>
   get_field (Detune 0) (turn_value True detune_max) = - 3 \<and>
   sel_ok detune_min \<and> get_field (Detune 0) detune_min = - 3 \<and>
   get_field (Detune 0) (turn_value False detune_min) = 3 \<and>
   within (Detune 0) (turn_value True detune_max) \<and>
   store_ok detune_max \<and> store_ok (turn_value True detune_max)"
proof -
  have h: "sel_ok detune_max" "value_sel detune_max = Detune 0"
    "sel_ok detune_min" "value_sel detune_min = Detune 0"
    by (simp_all add: detune_max_def detune_min_def main_init_def sel_ok_def arrays_ok_def)
  have g: "get_field (Detune 0) detune_max = 3" "get_field (Detune 0) detune_min = - 3"
    by (simp_all add: detune_max_def detune_min_def)
  have st: "store_ok detune_max"
    by (simp add: detune_max_def main_init_def store_ok_def all_fields_def within_def upt4)
  show ?thesis
    using value_edit_wraps [OF h(1,2), of True] value_edit_wraps [OF h(3,4), of True] h(1,3) g st
    by simp
qed

text \<open>
  C8. An index outside 0..20 is wrapped and the patch of the wrapped index is loaded
  (\<open>patch_index_wraps\<close>), but the load is not a full overwrite: \<open>changeAllParams\<close>
  never assigns \<open>ym.release\<close>.  After the sixth detent clockwise the index 21 has
  become 0 and patch 0 is in the store and in the registers; the write to register
  \<open>0x80\<close> carries the release 1 of patch 0 (\<open>(15 - 0) << 4 | (15 - 1) = 0xFE\<close>),
  while \<open>ym.release\<close> still holds the zeros it had before.
\<close>

theorem preset_load_skips_release:
  "patchNum last_patch = 20 \<and> release last_patch = [0, 0, 0, 0] \<and>
   patchNum wrapped_patch = 0 \<and> algorithm wrapped_patch = 7 \<and>
   multiple wrapped_patch = [10, 8, 4, 2] \<and> susLvl wrapped_patch = [0, 0, 0, 0] \<and>
   release wrapped_patch = [0, 0, 0, 0] \<and>
   spi wrapped_patch = spi last_patch @ changeAllParams_out 7 0 0 0 0
          [10, 8, 4, 2] [- 3, 1, 3, 0] [63, 117, 117, 127] [0, 0, 0, 0] [23, 23, 23, 23] [0, 0, 0, 0]
          [29, 29, 29, 29] [1, 1, 1, 1] [1, 2, 1, 2] [0, 0, 0, 0] [0, 0, 0, 0] \<and>
   (0, 0x80, 0xFE) \<in> set (drop (length (spi last_patch)) (spi wrapped_patch))"
proof -
  let ?s2 = "last_patch\<lparr>patchNum := 0\<rparr>"
  have a: "sel_ok last_patch" "value_sel last_patch = PatchNum" "patchNum last_patch = 20"
    "release last_patch = [0, 0, 0, 0]"
    using last_patch_at by (simp_all add: patch_at_def)
  have tv: "wrapped_patch = preset ?s2"
    using turn_value_patch [OF a(1,2), of True] a(3) by (simp add: wrapped_patch_def minMaxValue_def)
  have ar: "arrays_ok ?s2" using a(1) by (simp add: sel_ok_def arrays_ok_def)
  have "preset ?s2 = changeAllParams 7 0 0 0 0
          [10, 8, 4, 2] [- 3, 1, 3, 0] [63, 117, 117, 127] [0, 0, 0, 0] [23, 23, 23, 23] [0, 0, 0, 0]
          [29, 29, 29, 29] [1, 1, 1, 1] [1, 2, 1, 2] [0, 0, 0, 0] [0, 0, 0, 0] ?s2"
    by (simp add: preset_def)
  then have e: "wrapped_patch = ?s2
     \<lparr>algorithm := 7, feedback := 0, lfoFreq := 0, vibrato := 0, tremolo := 0,
      multiple := [10, 8, 4, 2], detune := [- 3, 1, 3, 0], totalLvl := [63, 117, 117, 127],
      attack := [0, 0, 0, 0], decay := [23, 23, 23, 23], susLvl := [0, 0, 0, 0],
      susRate := [29, 29, 29, 29], rateScl := [1, 2, 1, 2], ssgeg := [0, 0, 0, 0],
      amOn := [0, 0, 0, 0],
      spi := spi ?s2 @ changeAllParams_out 7 0 0 0 0
          [10, 8, 4, 2] [- 3, 1, 3, 0] [63, 117, 117, 127] [0, 0, 0, 0] [23, 23, 23, 23] [0, 0, 0, 0]
          [29, 29, 29, 29] [1, 1, 1, 1] [1, 2, 1, 2] [0, 0, 0, 0] [0, 0, 0, 0]\<rparr>"
    by (simp add: tv changeAllParams_eq [OF ar])
  have m: "(0, 0x80, 0xFE) \<in> set (changeAllParams_out 7 0 0 0 0
          [10, 8, 4, 2] [- 3, 1, 3, 0] [63, 117, 117, 127] [0, 0, 0, 0] [23, 23, 23, 23] [0, 0, 0, 0]
          [29, 29, 29, 29] [1, 1, 1, 1] [1, 2, 1, 2] [0, 0, 0, 0] [0, 0, 0, 0])"
    by (simp add: changeAllParams_out_def changeAllParams_op_out_def writeToYM_out_def dataToWrite_def
          opOffset_def upt4 upt_rec)
  show ?thesis
    using a(3,4) m by (simp add: e)
qed

subsection \<open>Controller messages at the wrap of the buffer\<close>

lemma startup_midi:
  "midiIndex startup = 0 \<and> msgStart startup = 0 \<and> midiBuf startup = (\<lambda>_. 0) \<and>
   \<not> sustain startup \<and> lfoFreq startup = 0"
proof -
  have g: "group (preset main_init) = 0"
    by (simp add: preset_main_init) (simp add: main_init_def)
  have c: "changeGroup (preset main_init)
      = (preset main_init)\<lparr>group := 0, current := 0, value_sel := PatchNum\<rparr>"
    by (simp add: changeGroup_def g minMaxValue_def)
  show ?thesis
    unfolding startup_def c by (simp add: preset_main_init) (simp add: main_init_def)
qed

lemma controller_bytes_const:
  "uint (0xB0 :: u8) < 0xF8" "uint (0xB0 :: u8) AND 0xF0 = 0xB0"
  "uint (7 :: u8) < 0x80" "uint (100 :: u8) < 0x80" "uint (1 :: u8) < 0x80"
  "uint (64 :: u8) < 0x80" "uint (0 :: u8) < 0x80"
  by simp_all

lemma other_controller_step:
  assumes "midiIndex s = k" and "0 \<le> k" and "k \<le> 127"
  shows "midiIndex (other_controller s) = (k + 3) mod 128 \<and>
         sustain (other_controller s) = sustain s \<and>
         lfoFreq (other_controller s) = lfoFreq s \<and>
         spi (other_controller s) = spi s"
proof -
  let ?t = "rx_store 100 (rx_store 7 (rx_store 0xB0 s))"
  have m: "other_controller s = ?t"
    unfolding other_controller_def
    using controller_message [OF assms controller_bytes_const(1,2,3,4)]
    by (simp add: controller_def)
  have i: "midiIndex ?t = (if k = 127 then 2 else if k = 126 then 1 else if k = 125 then 0 else k + 3)"
    using rx_three(3) [OF assms controller_bytes_const(1,2,3,4)] by simp
  have "(if k = 127 then 2 else if k = 126 then 1 else if k = 125 then 0 else k + 3) = (k + 3) mod 128"
    using assms(2,3) by auto
  then show ?thesis
    using i by (simp add: m rx_store_fields)
qed

lemma quiet_messages:
  "midiIndex ((other_controller ^^ n) startup) = (3 * int n) mod 128 \<and>
   \<not> sustain ((other_controller ^^ n) startup) \<and>
   lfoFreq ((other_controller ^^ n) startup) = 0 \<and>
   spi ((other_controller ^^ n) startup) = spi startup"
proof (induction n)
  case 0
  show ?case using startup_midi by simp
next
  case (Suc n)
  let ?s = "(other_controller ^^ n) startup"
  have k: "midiIndex ?s = (3 * int n) mod 128" "0 \<le> (3 * int n) mod 128" "(3 * int n) mod 128 \<le> 127"
    using Suc by simp_all
  have "3 * int (Suc n) = 3 * int n + 3" by simp
  then have "((3 * int n) mod 128 + 3) mod 128 = (3 * int (Suc n)) mod 128"
    by (simp only: mod_add_left_eq)
  then show ?case
    using other_controller_step [OF k] Suc by simp
qed

lemma quiet_127_state:
  "midiIndex quiet_127 = 125 \<and> \<not> sustain quiet_127 \<and> lfoFreq quiet_127 = 0 \<and>
   spi quiet_127 = spi startup"
  using quiet_messages [of 127] by (simp add: quiet_127_def)

text \<open>
  C10. The claim fails on the code.  After the start and 127 well-formed messages the
  sustain message \<open>0xB0, 64, 0\<close> has its status byte at index 125: the handler
  stores the three bytes and never dispatches them, and the sustain flag stays clear.
  The same three bytes right after the start set it.
\<close>

theorem sustain_message_dropped:
  "midiIndex quiet_127 = 125 \<and> \<not> sustain quiet_127 \<and>
   \<not> sustain (USART_RX_vect 0 (USART_RX_vect 64 (USART_RX_vect 0xB0 quiet_127))) \<and>
   sustain (USART_RX_vect 0 (USART_RX_vect 64 (USART_RX_vect 0xB0 startup)))"
proof -
  have q: "midiIndex quiet_127 = 125" "(0::int) \<le> 125" "(125::int) \<le> 127"
    using quiet_127_state by simp_all
  have a: "USART_RX_vect 0 (USART_RX_vect 64 (USART_RX_vect 0xB0 quiet_127))
      = rx_store 0 (rx_store 64 (rx_store 0xB0 quiet_127))"
    using controller_message [OF q controller_bytes_const(1,2,6,7)] by simp
  have s0: "midiIndex startup = 0" "(0::int) \<le> 0" "(0::int) \<le> 127"
    using startup_midi by simp_all
  have b: "USART_RX_vect 0 (USART_RX_vect 64 (USART_RX_vect 0xB0 startup))
      = controller 64 0 (rx_store 0 (rx_store 64 (rx_store 0xB0 startup)))"
    using controller_message [OF s0 controller_bytes_const(1,2,6,7)] by simp
  show ?thesis
    using quiet_127_state by (simp add: a b rx_store_fields controller_def)
qed

text \<open>
  C9. The claim fails on the code.  At the same position the mod-wheel message
  \<open>0xB0, 1, 64\<close> is stored and not dispatched: no write to the LFO register.  Right
  after the start it is dispatched and sends \<open>0x08 + 64 / 18 = 11\<close> to register
  \<open>0x22\<close>; a realtime byte \<open>0xF8\<close> that follows is not stored, the test holds
  again on the unchanged buffer, and the write is sent a second time.
\<close>

theorem mod_wheel_message_dropped:
  "midiIndex quiet_127 = 125 \<and>
   spi (USART_RX_vect 64 (USART_RX_vect 1 (USART_RX_vect 0xB0 quiet_127))) = spi quiet_127 \<and>
   spi (USART_RX_vect 64 (USART_RX_vect 1 (USART_RX_vect 0xB0 startup)))
     = spi startup @ [(0, 0x22, 11)] \<and>
   spi (USART_RX_vect 0xF8 (USART_RX_vect 64 (USART_RX_vect 1 (USART_RX_vect 0xB0 startup))))
     = spi startup @ [(0, 0x22, 11), (0, 0x22, 11)]"
proof -
  have q: "midiIndex quiet_127 = 125" "(0::int) \<le> 125" "(125::int) \<le> 127"
    using quiet_127_state by simp_all
  have a: "USART_RX_vect 64 (USART_RX_vect 1 (USART_RX_vect 0xB0 quiet_127))
      = rx_store 64 (rx_store 1 (rx_store 0xB0 quiet_127))"
    using controller_message [OF q controller_bytes_const(1,2,5,6)] by simp
  have s0: "midiIndex startup = 0" "(0::int) \<le> 0" "(0::int) \<le> 127"
    using startup_midi by simp_all
  let ?t = "rx_store 64 (rx_store 1 (rx_store 0xB0 startup))"
  have t: "?t = startup\<lparr>midiBuf := (\<lambda>_. 0)(0 := 0xB0, 1 := 1, 2 := 64), msgStart := 0, midiIndex := 3\<rparr>"
    using rx_three(3) [OF s0 controller_bytes_const(1,2,5,6)] startup_midi by simp
  have b: "USART_RX_vect 64 (USART_RX_vect 1 (USART_RX_vect 0xB0 startup))
      = sendreg 0 0x22 11 ?t"
    using controller_message [OF s0 controller_bytes_const(1,2,5,6)]
    by (simp add: controller_def signed_divide_int_def)
  have c: "USART_RX_vect 0xF8 (sendreg 0 0x22 11 ?t) = sendreg 0 0x22 11 (sendreg 0 0x22 11 ?t)"
    unfolding t
    by (simp add: USART_RX_vect_def rx_store_def sendreg_def rx_is3_def rx_status_def rx_data1_def
          rx_data2_def midi3_def controller_def signed_divide_int_def Let_def)
  have r0: "spi (USART_RX_vect 64 (USART_RX_vect 1 (USART_RX_vect 0xB0 quiet_127))) = spi quiet_127"
    by (simp add: a rx_store_fields)
  have r1: "spi (USART_RX_vect 64 (USART_RX_vect 1 (USART_RX_vect 0xB0 startup)))
     = spi startup @ [(0, 0x22, 11)]"
    by (simp add: b) (simp add: sendreg_def rx_store_fields)
  have r2: "spi (USART_RX_vect 0xF8 (USART_RX_vect 64 (USART_RX_vect 1 (USART_RX_vect 0xB0 startup))))
     = spi startup @ [(0, 0x22, 11), (0, 0x22, 11)]"
    by (simp only: b c) (simp add: sendreg_def rx_store_fields)
  show ?thesis
    using q(1) r0 r1 r2 by simp
qed

end
